theory Spec2Isabelle
  imports Main "HOL-Library.Word" "HOL-Library.AList"
begin

section \<open>The Vulkan swapchain of engine/flutter/vulkan/vulkan_swapchain.cc\<close>

text \<open>
  The model follows the build with \<^verbatim>\<open>RS_ENABLE_VK\<close> defined: it is the one that has
  the batched flag of a backbuffer, \<^verbatim>\<open>FlushCommands\<close>, \<^verbatim>\<open>AddToPresent\<close> and
  \<^verbatim>\<open>PresentAll\<close>.

  Machine integers: \<^verbatim>\<open>size_t\<close> is a 64-bit word, \<^verbatim>\<open>uint32_t\<close> a 32-bit word,
  \<^verbatim>\<open>int\<close> and \<^verbatim>\<open>int32_t\<close> 32-bit words read with \<open>sint\<close>. Vulkan and Skia handles
  are opaque numbers. A member \<^verbatim>\<open>name_\<close> of a C++ class is the field \<open>name\<close>.
  Every call that leaves the class (device, platform, command buffer, Skia) takes its
  outcome from a record of outcomes, and the calls that the properties below speak of are
  written to a log of events, in the order in which they are made. An operation whose
  C++ behaviour is undefined (indexing a vector out of range, calling through a null or
  dangling pointer) has the value \<open>None\<close>; every return of the C++ function, also one
  that reports an error, is a \<open>Some\<close>. The outside calls are taken to return: a fence
  wait or an image request that blocks for ever is not modelled.
\<close>

subsection \<open>Vulkan and Skia data\<close>

type_synonym handle = nat
type_synonym size_t = "64 word"
type_synonym uint32_t = "32 word"
type_synonym int32_t = "32 word"

datatype VkResult =
    VK_SUCCESS
  | VK_ERROR_OUT_OF_DATE_KHR
  | VK_ERROR_SURFACE_LOST_KHR
  | VK_RESULT_OTHER int

datatype VkPipelineStageFlagBits =
    VK_PIPELINE_STAGE_TOP_OF_PIPE_BIT
  | VK_PIPELINE_STAGE_COLOR_ATTACHMENT_OUTPUT_BIT
  | VK_PIPELINE_STAGE_BOTTOM_OF_PIPE_BIT

datatype VkImageLayout =
    VK_IMAGE_LAYOUT_UNDEFINED
  | VK_IMAGE_LAYOUT_COLOR_ATTACHMENT_OPTIMAL
  | VK_IMAGE_LAYOUT_PRESENT_SRC_KHR

datatype VkAccessFlagBits =
    VK_ACCESS_COLOR_ATTACHMENT_WRITE_BIT
  | VK_ACCESS_MEMORY_READ_BIT

datatype VkFormat =
    VK_FORMAT_UNDEFINED
  | VK_FORMAT_R8G8B8A8_SRGB
  | VK_FORMAT_B8G8R8A8_SRGB
  | VK_FORMAT_R16G16B16A16_SFLOAT
  | VK_FORMAT_R8G8B8A8_UNORM
  | VK_FORMAT_B8G8R8A8_UNORM

datatype VkPresentModeKHR =
    VK_PRESENT_MODE_FIFO_KHR
  | VK_PRESENT_MODE_OTHER nat

datatype SkColorType =
    kUnknown_SkColorType
  | kRGBA_8888_SkColorType
  | kBGRA_8888_SkColorType
  | kRGBA_F16_SkColorType

datatype SkColorSpace = MakeSRGB | MakeSRGBLinear

record VkExtent2D =
  width :: uint32_t
  height :: uint32_t

text \<open>Of \<^verbatim>\<open>VkSurfaceCapabilitiesKHR\<close>, the fields that the swapchain reads.\<close>

record VkSurfaceCapabilitiesKHR =
  minImageCount :: uint32_t
  currentExtent :: VkExtent2D
  minImageExtent :: VkExtent2D
  maxImageExtent :: VkExtent2D

record VkSurfaceFormatKHR =
  format :: VkFormat
  colorSpace :: nat

text \<open>
  \<^verbatim>\<open>SkISize\<close> (SkSize.h) has two \<^verbatim>\<open>int32_t\<close> fields; \<^verbatim>\<open>SkISize::Make(w, h)\<close> stores
  its arguments. A \<^verbatim>\<open>uint32_t\<close> argument is converted to \<^verbatim>\<open>int32_t\<close> with the same 32
  bits; \<open>sint\<close> reads the field.
\<close>

record SkISize =
  fWidth :: int32_t
  fHeight :: int32_t

definition SkISize_Make :: "int32_t \<Rightarrow> int32_t \<Rightarrow> SkISize" where
  "SkISize_Make w h = \<lparr>fWidth = w, fHeight = h\<rparr>"

text \<open>
  Modelled from the spec: class \<^verbatim>\<open>VulkanBackbuffer\<close> (vulkan_backbuffer.h/.cc). A
  rotation slot has a usage and a render fence, a usage and a render semaphore, a usage
  and a render command buffer, and the boolean flag that marks it as part of a batched
  present, set by \<^verbatim>\<open>SetMultiThreading\<close>, cleared by \<^verbatim>\<open>UnsetMultiThreading\<close>, read by
  \<^verbatim>\<open>IsMultiThreading\<close>. \<open>bb_valid\<close> is what \<^verbatim>\<open>IsValid()\<close> returns.
\<close>

record VulkanBackbuffer =
  bb_valid :: bool
  multi_threading :: bool
  usage_fence :: handle
  render_fence :: handle
  usage_semaphore :: handle
  render_semaphore :: handle
  usage_command_buffer :: handle
  render_command_buffer :: handle

definition IsMultiThreading :: "VulkanBackbuffer \<Rightarrow> bool" where
  "IsMultiThreading b = multi_threading b"

definition SetMultiThreading :: "VulkanBackbuffer \<Rightarrow> VulkanBackbuffer" where
  "SetMultiThreading b = b\<lparr>multi_threading := True\<rparr>"

definition UnsetMultiThreading :: "VulkanBackbuffer \<Rightarrow> VulkanBackbuffer" where
  "UnsetMultiThreading b = b\<lparr>multi_threading := False\<rparr>"

text \<open>
  Modelled from the spec: class \<^verbatim>\<open>VulkanImage\<close> (vulkan_image.h/.cc) wraps one
  presentable image; \<open>image_valid\<close> is what \<^verbatim>\<open>IsValid()\<close> returns. The layout and access
  mask that the class tracks are not read by the swapchain and are left out.
\<close>

record VulkanImage =
  image_handle :: handle
  image_valid :: bool

text \<open>An \<^verbatim>\<open>sk_sp<SkSurface>\<close> is a surface handle or null.\<close>

type_synonym SkSurface_ptr = "handle option"

record VulkanSwapchain =
  vk :: handle
  device :: handle
  capabilities :: VkSurfaceCapabilitiesKHR
  surface_format :: VkSurfaceFormatKHR
  swapchain :: handle
  backbuffers :: "VulkanBackbuffer list"
  images :: "VulkanImage list"
  surfaces :: "SkSurface_ptr list"
  current_pipeline_stage :: VkPipelineStageFlagBits
  current_backbuffer_index :: size_t
  current_image_index :: size_t
  valid :: bool

definition IsValid :: "VulkanSwapchain \<Rightarrow> bool" where
  "IsValid s = valid s"

subsection \<open>GetSize\<close>

definition GetSize :: "VulkanSwapchain \<Rightarrow> SkISize" where
  "GetSize s =
    (let caps = capabilities s;
         extents = currentExtent caps;
         extents =
           (if width extents < width (minImageExtent caps)
            then extents\<lparr>width := width (minImageExtent caps)\<rparr>
            else if width extents > width (maxImageExtent caps)
            then extents\<lparr>width := width (maxImageExtent caps)\<rparr>
            else extents);
         extents =
           (if height extents < height (minImageExtent caps)
            then extents\<lparr>height := height (minImageExtent caps)\<rparr>
            else if height extents > height (maxImageExtent caps)
            then extents\<lparr>height := height (maxImageExtent caps)\<rparr>
            else extents)
     in SkISize_Make (width extents) (height extents))"

subsection \<open>Vectors, outcomes of the outside calls, and the log\<close>

text \<open>\<^verbatim>\<open>v.size()\<close> and the unchecked \<^verbatim>\<open>v[i]\<close> of a \<^verbatim>\<open>std::vector\<close>.\<close>

definition vec_size :: "'a list \<Rightarrow> size_t" where
  "vec_size xs = of_nat (length xs)"

definition at :: "'a list \<Rightarrow> size_t \<Rightarrow> 'a option" where
  "at xs i = (if unat i < length xs then Some (xs ! unat i) else None)"

record vk_outcomes =
  WaitFences_ok :: bool
  ResetFences_ok :: bool
  AcquireNextImageKHR_result :: VkResult
  AcquireNextImageKHR_index :: uint32_t
  Begin_ok :: bool
  InsertImageMemoryBarrier_ok :: bool
  End_ok :: bool
  QueueSubmit_ok :: bool
  backendRT_isValid :: bool
  QueuePresentKHR_result :: VkResult

datatype registry_access = RegEmpty | RegSize | RegIterate | RegInsert | RegClear

datatype event =
    EvWaitFences handle handle
  | EvResetFences handle handle
  | EvAcquireNextImageKHR handle handle
  | EvBegin handle
  | EvInsertImageMemoryBarrier handle handle VkPipelineStageFlagBits
      VkPipelineStageFlagBits VkAccessFlagBits VkImageLayout
  | EvEnd handle
  | EvQueueSubmit handle "VkPipelineStageFlagBits list" "handle list" "handle list"
      "handle list" handle
  | EvQueuePresentKHR handle "handle list" "handle list" "uint32_t list"
  | EvSurfaceFlush handle
  | EvGetBackendRenderTarget handle
  | EvSetVkImageLayout handle VkImageLayout
  | EvSetMultiThreading nat size_t
  | EvMutexLock
  | EvMutexUnlock
  | EvRegistry registry_access
  | EvChooseSurfaceFormat "VkFormat list"
  | EvCreateSwapchainKHR uint32_t VkFormat nat VkExtent2D VkPresentModeKHR handle

text \<open>
  The events are: \<open>EvWaitFences\<close> and \<open>EvResetFences\<close> with the usage and the render
  fence of the backbuffer; \<open>EvAcquireNextImageKHR\<close> with the native chain and the
  semaphore to signal; \<open>EvBegin\<close>, \<open>EvEnd\<close> with the command buffer;
  \<open>EvInsertImageMemoryBarrier\<close> with image, command buffer, source stage, destination
  stage, destination access and destination layout; \<open>EvQueueSubmit\<close> with the device, the
  wait stages, the wait semaphores, the signal semaphores, the command buffers and the
  fence; \<open>EvQueuePresentKHR\<close> with the device whose queue presents, the wait semaphores,
  the native chains and the image indices; \<open>EvSetMultiThreading\<close> with the address of the
  swapchain and the index of its backbuffer; \<open>EvMutexLock\<close> and \<open>EvMutexUnlock\<close> for the
  constructor and the destructor of the \<^verbatim>\<open>std::lock_guard\<close> on \<^verbatim>\<open>map_mutex_\<close>;
  \<open>EvRegistry\<close> for each access to \<^verbatim>\<open>to_be_present_\<close>.
\<close>

subsection \<open>GetNextBackbuffer and AcquireSurface\<close>

datatype AcquireStatus = Success | ErrorSurfaceLost | ErrorSurfaceOutOfDate

type_synonym AcquireResult = "AcquireStatus \<times> SkSurface_ptr"

text \<open>
  The pointer that \<^verbatim>\<open>GetNextBackbuffer\<close> returns is the index of the slot together with
  the backbuffer read there; \<open>None\<close> inside is \<^verbatim>\<open>nullptr\<close>.
\<close>

definition GetNextBackbuffer ::
  "VulkanSwapchain \<Rightarrow> ((size_t \<times> VulkanBackbuffer) option \<times> VulkanSwapchain) option" where
  "GetNextBackbuffer s =
    (let available_backbuffers = vec_size (backbuffers s) in
     if available_backbuffers = 0 then Some (None, s)
     else
       let next_backbuffer_index =
             (current_backbuffer_index s + 1) mod vec_size (backbuffers s) in
       case at (backbuffers s) next_backbuffer_index of
         None \<Rightarrow> None
       | Some backbuffer \<Rightarrow>
           if \<not> bb_valid backbuffer then Some (None, s)
           else Some (Some (next_backbuffer_index, backbuffer),
                      s\<lparr>current_backbuffer_index := next_backbuffer_index\<rparr>))"

text \<open>Steps 3 to 8 of \<^verbatim>\<open>AcquireSurface\<close>, from the call of \<^verbatim>\<open>vkAcquireNextImageKHR\<close> on.\<close>

definition AcquireSurface_from_step3 ::
  "vk_outcomes \<Rightarrow> VulkanSwapchain \<Rightarrow> size_t \<Rightarrow> VulkanBackbuffer \<Rightarrow> event list \<Rightarrow>
   (AcquireResult \<times> VulkanSwapchain \<times> event list) option" where
  "AcquireSurface_from_step3 env s bi backbuffer log0 =
    (let error = (ErrorSurfaceLost, None);
         next_image_index = AcquireNextImageKHR_index env;
         log = log0 @ [EvAcquireNextImageKHR (swapchain s) (usage_semaphore backbuffer)]
     in case AcquireNextImageKHR_result env of
          VK_ERROR_OUT_OF_DATE_KHR \<Rightarrow> Some ((ErrorSurfaceOutOfDate, None), s, log)
        | VK_ERROR_SURFACE_LOST_KHR \<Rightarrow> Some ((ErrorSurfaceLost, None), s, log)
        | VK_RESULT_OTHER r \<Rightarrow> Some ((ErrorSurfaceLost, None), s, log)
        | VK_SUCCESS \<Rightarrow>
     (if ucast next_image_index \<ge> vec_size (images s) then Some (error, s, log)
     else case at (images s) (ucast next_image_index) of None \<Rightarrow> None | Some img \<Rightarrow>
     (if \<not> image_valid img then Some (error, s, log)
     else
     let log = log @ [EvBegin (usage_command_buffer backbuffer)] in
     if \<not> Begin_ok env then Some (error, s, log)
     else
     let destination_pipeline_stage = VK_PIPELINE_STAGE_COLOR_ATTACHMENT_OUTPUT_BIT;
         destination_image_layout = VK_IMAGE_LAYOUT_COLOR_ATTACHMENT_OPTIMAL;
         log = log @ [EvInsertImageMemoryBarrier (image_handle img)
                        (usage_command_buffer backbuffer) (current_pipeline_stage s)
                        destination_pipeline_stage VK_ACCESS_COLOR_ATTACHMENT_WRITE_BIT
                        destination_image_layout] in
     if \<not> InsertImageMemoryBarrier_ok env then Some (error, s, log)
     else
     let s = s\<lparr>current_pipeline_stage := destination_pipeline_stage\<rparr>;
         log = log @ [EvEnd (usage_command_buffer backbuffer)] in
     if \<not> End_ok env then Some (error, s, log)
     else
     let log = log @ [EvQueueSubmit (device s) [destination_pipeline_stage]
                        [usage_semaphore backbuffer] [] [usage_command_buffer backbuffer]
                        (usage_fence backbuffer)] in
     if \<not> QueueSubmit_ok env then Some (error, s, log)
     else
     let s = s\<lparr>backbuffers :=
               list_update (backbuffers s) (unat bi) (UnsetMultiThreading backbuffer)\<rparr> in
     (case at (surfaces s) (ucast next_image_index) of None \<Rightarrow> None | Some surface \<Rightarrow>
     (case surface of None \<Rightarrow> Some (error, s, log) | Some sf \<Rightarrow>
     let log = log @ [EvGetBackendRenderTarget sf] in
     if \<not> backendRT_isValid env then Some (error, s, log)
     else Some ((Success, Some sf),
                s\<lparr>current_image_index := ucast next_image_index\<rparr>,
                log @ [EvSetVkImageLayout sf destination_image_layout]))))))"

definition AcquireSurface ::
  "vk_outcomes \<Rightarrow> VulkanSwapchain \<Rightarrow> (AcquireResult \<times> VulkanSwapchain \<times> event list) option" where
  "AcquireSurface env s =
    (let error = (ErrorSurfaceLost, None) in
     if \<not> IsValid s then Some (error, s, [])
     else case GetNextBackbuffer s of None \<Rightarrow> None | Some (p, s) \<Rightarrow>
     (case p of None \<Rightarrow> Some (error, s, []) | Some (bi, backbuffer) \<Rightarrow>
     if \<not> IsMultiThreading backbuffer then
       let log = [EvWaitFences (usage_fence backbuffer) (render_fence backbuffer)] in
       if \<not> WaitFences_ok env then Some (error, s, log)
       else
       let log = log @ [EvResetFences (usage_fence backbuffer) (render_fence backbuffer)] in
       if \<not> ResetFences_ok env then Some (error, s, log)
       else AcquireSurface_from_step3 env s bi backbuffer log
     else AcquireSurface_from_step3 env s bi backbuffer []))"

subsection \<open>FlushCommands and Submit\<close>

definition FlushCommands ::
  "vk_outcomes \<Rightarrow> VulkanSwapchain \<Rightarrow> (bool \<times> VulkanSwapchain \<times> event list) option" where
  "FlushCommands env s =
    (if \<not> IsValid s then Some (False, s, [])
     else
     case at (surfaces s) (current_image_index s) of None \<Rightarrow> None | Some surface \<Rightarrow>
     (case at (images s) (current_image_index s) of None \<Rightarrow> None | Some img \<Rightarrow>
     (case at (backbuffers s) (current_backbuffer_index s) of None \<Rightarrow> None | Some backbuffer \<Rightarrow>
     (case surface of None \<Rightarrow> None | Some sf \<Rightarrow>
     let log = [EvSurfaceFlush sf, EvBegin (render_command_buffer backbuffer)] in
     if \<not> Begin_ok env then Some (False, s, log)
     else
     let destination_pipeline_stage = VK_PIPELINE_STAGE_BOTTOM_OF_PIPE_BIT;
         destination_image_layout = VK_IMAGE_LAYOUT_PRESENT_SRC_KHR;
         log = log @ [EvInsertImageMemoryBarrier (image_handle img)
                        (render_command_buffer backbuffer) (current_pipeline_stage s)
                        destination_pipeline_stage VK_ACCESS_MEMORY_READ_BIT
                        destination_image_layout] in
     if \<not> InsertImageMemoryBarrier_ok env then Some (False, s, log)
     else
     let s = s\<lparr>current_pipeline_stage := destination_pipeline_stage\<rparr>;
         log = log @ [EvEnd (render_command_buffer backbuffer)] in
     if \<not> End_ok env then Some (False, s, log)
     else Some (True, s, log)))))"

definition Submit ::
  "vk_outcomes \<Rightarrow> VulkanSwapchain \<Rightarrow> (bool \<times> VulkanSwapchain \<times> event list) option" where
  "Submit env s =
    (if \<not> IsValid s then Some (False, s, [])
     else
     case at (surfaces s) (current_image_index s) of None \<Rightarrow> None | Some surface \<Rightarrow>
     (case at (images s) (current_image_index s) of None \<Rightarrow> None | Some img \<Rightarrow>
     (case at (backbuffers s) (current_backbuffer_index s) of None \<Rightarrow> None | Some backbuffer \<Rightarrow>
     (case surface of None \<Rightarrow> None | Some sf \<Rightarrow>
     let log = [EvSurfaceFlush sf, EvBegin (render_command_buffer backbuffer)] in
     if \<not> Begin_ok env then Some (False, s, log)
     else
     let destination_pipeline_stage = VK_PIPELINE_STAGE_BOTTOM_OF_PIPE_BIT;
         destination_image_layout = VK_IMAGE_LAYOUT_PRESENT_SRC_KHR;
         log = log @ [EvInsertImageMemoryBarrier (image_handle img)
                        (render_command_buffer backbuffer) (current_pipeline_stage s)
                        destination_pipeline_stage VK_ACCESS_MEMORY_READ_BIT
                        destination_image_layout] in
     if \<not> InsertImageMemoryBarrier_ok env then Some (False, s, log)
     else
     let s = s\<lparr>current_pipeline_stage := destination_pipeline_stage\<rparr>;
         log = log @ [EvEnd (render_command_buffer backbuffer)] in
     if \<not> End_ok env then Some (False, s, log)
     else
     let wait_semaphores = [];
         queue_signal_semaphores = [render_semaphore backbuffer];
         command_buffers = [render_command_buffer backbuffer];
         log = log @ [EvQueueSubmit (device s) [] wait_semaphores queue_signal_semaphores
                        command_buffers (render_fence backbuffer)] in
     if \<not> QueueSubmit_ok env then Some (False, s, log)
     else
     let s = s\<lparr>backbuffers :=
               list_update (backbuffers s) (unat (current_backbuffer_index s))
                 (UnsetMultiThreading backbuffer)\<rparr>;
         present_image_index = (ucast (current_image_index s) :: uint32_t);
         log = log @ [EvQueuePresentKHR (device s) queue_signal_semaphores [swapchain s]
                        [present_image_index]] in
     if QueuePresentKHR_result env \<noteq> VK_SUCCESS then Some (False, s, log)
     else Some (True, s, log)))))"

subsection \<open>The registry of swapchains to present: AddToPresent and PresentAll\<close>

text \<open>
  \<^verbatim>\<open>to_be_present_\<close> is a static \<^verbatim>\<open>std::unordered_map\<close> from thread id to a raw pointer
  to a swapchain: an association list with distinct keys, in the order in which the map
  is iterated, and a heap from addresses to swapchain objects (\<open>None\<close> where no object
  lives). Two entries may hold the same address. \<^verbatim>\<open>map_mutex_\<close> is locked and unlocked
  by a \<^verbatim>\<open>std::lock_guard\<close>, which the log records.
\<close>

type_synonym thread_id = nat
type_synonym address = nat

record process_state =
  to_be_present :: "(thread_id \<times> address) list"
  heap :: "address \<Rightarrow> VulkanSwapchain option"

definition AddToPresent ::
  "address \<Rightarrow> thread_id \<Rightarrow> process_state \<Rightarrow> process_state \<times> event list" where
  "AddToPresent this tid g =
    (g\<lparr>to_be_present := AList.update tid this (to_be_present g)\<rparr>,
     [EvMutexLock, EvRegistry RegInsert, EvMutexUnlock])"

text \<open>
  The body of the loop of \<^verbatim>\<open>PresentAll\<close> over the entries of the registry. It returns
  the heap after the calls of \<^verbatim>\<open>SetMultiThreading\<close>, the four vectors in the order of the
  \<^verbatim>\<open>push_back\<close> calls, and the events.
\<close>

fun PresentAll_loop ::
  "(thread_id \<times> address) list \<Rightarrow> (address \<Rightarrow> VulkanSwapchain option) \<Rightarrow>
   ((address \<Rightarrow> VulkanSwapchain option) \<times> handle list \<times> handle list \<times> handle list \<times>
    uint32_t list \<times> event list) option" where
  "PresentAll_loop [] h = Some (h, [], [], [], [], [])"
| "PresentAll_loop (entry # rest) h =
    (case h (snd entry) of None \<Rightarrow> None | Some sc \<Rightarrow>
     (case at (backbuffers sc) (current_backbuffer_index sc) of None \<Rightarrow> None
      | Some backbuffer \<Rightarrow>
        let sc' = sc\<lparr>backbuffers :=
                      list_update (backbuffers sc) (unat (current_backbuffer_index sc))
                        (SetMultiThreading backbuffer)\<rparr>;
            h' = h(snd entry \<mapsto> sc')
        in (case PresentAll_loop rest h' of None \<Rightarrow> None
            | Some (h'', queue_signal_semaphores, command_buffers, swapchains,
                    present_image_indices, evs) \<Rightarrow>
                Some (h'',
                      render_semaphore backbuffer # queue_signal_semaphores,
                      render_command_buffer backbuffer # command_buffers,
                      swapchain sc # swapchains,
                      ucast (current_image_index sc) # present_image_indices,
                      EvRegistry RegIterate
                        # EvSetMultiThreading (snd entry) (current_backbuffer_index sc)
                        # evs))))"

definition PresentAll ::
  "vk_outcomes \<Rightarrow> handle \<Rightarrow> process_state \<Rightarrow> (process_state \<times> event list) option" where
  "PresentAll env shared_fence g =
    (let log = [EvRegistry RegEmpty] in
     if to_be_present g = [] then Some (g, log)
     else
     let log = log @ [EvMutexLock, EvRegistry RegSize, EvRegistry RegSize,
                      EvRegistry RegSize, EvRegistry RegSize];
         wait_semaphores = []
     in case PresentAll_loop (to_be_present g) (heap g) of None \<Rightarrow> None
        | Some (h, queue_signal_semaphores, command_buffers, swapchains,
                present_image_indices, evs) \<Rightarrow>
     (case h (snd (hd (to_be_present g))) of None \<Rightarrow> None | Some tmpSwapChain \<Rightarrow>
     let g = g\<lparr>heap := h\<rparr>;
         log = log @ evs @ [EvQueueSubmit (device tmpSwapChain) [] wait_semaphores
                              queue_signal_semaphores command_buffers shared_fence] in
     if \<not> QueueSubmit_ok env then Some (g, log @ [EvMutexUnlock])
     else
     let log = log @ [EvQueuePresentKHR (device tmpSwapChain) queue_signal_semaphores
                        swapchains present_image_indices] in
     if QueuePresentKHR_result env \<noteq> VK_SUCCESS then Some (g, log @ [EvMutexUnlock])
     else Some (g\<lparr>to_be_present := []\<rparr>, log @ [EvRegistry RegClear, EvMutexUnlock])))"

text \<open>
  Whether every access to the registry in a log happens while the mutex is held; the
  first argument says whether it is held at the start.
\<close>

fun guarded :: "bool \<Rightarrow> event list \<Rightarrow> bool" where
  "guarded held [] = True"
| "guarded held (EvMutexLock # es) = guarded True es"
| "guarded held (EvMutexUnlock # es) = guarded False es"
| "guarded held (EvRegistry a # es) = (held \<and> guarded held es)"
| "guarded held (e # es) = guarded held es"

subsection \<open>Construction\<close>

record FormatInfo =
  format :: VkFormat
  color_type :: SkColorType
  color_space :: SkColorSpace

definition DesiredFormatInfos :: "FormatInfo list" where
  "DesiredFormatInfos =
    [\<lparr>format = VK_FORMAT_R8G8B8A8_SRGB, color_type = kRGBA_8888_SkColorType,
      color_space = MakeSRGBLinear\<rparr>,
     \<lparr>format = VK_FORMAT_B8G8R8A8_SRGB, color_type = kBGRA_8888_SkColorType,
      color_space = MakeSRGBLinear\<rparr>,
     \<lparr>format = VK_FORMAT_R16G16B16A16_SFLOAT, color_type = kRGBA_F16_SkColorType,
      color_space = MakeSRGBLinear\<rparr>,
     \<lparr>format = VK_FORMAT_R8G8B8A8_UNORM, color_type = kRGBA_8888_SkColorType,
      color_space = MakeSRGB\<rparr>,
     \<lparr>format = VK_FORMAT_B8G8R8A8_UNORM, color_type = kRGBA_8888_SkColorType,
      color_space = MakeSRGB\<rparr>]"

text \<open>
  What the collaborators answer during one construction. A call with an out-parameter
  gives its return value and what it wrote. \<open>ChooseSurfaceFormat\<close> depends on the list of
  candidates that it is given; \<open>new_VulkanBackbuffer i\<close> is the backbuffer built in the
  \<open>i\<close>-th round of the loop over the images.
\<close>

record construct_outcomes =
  device_IsValid :: bool
  surface_IsValid :: bool
  GetSurfaceCapabilities :: "bool \<times> VkSurfaceCapabilitiesKHR"
  colorTypeSupportedAsSurface :: "SkColorType \<Rightarrow> bool"
  ChooseSurfaceFormat :: "VkFormat list \<Rightarrow> int32_t \<times> VkSurfaceFormatKHR"
  ChoosePresentMode :: "bool \<times> VkPresentModeKHR"
  GetPhysicalDeviceSurfaceSupportKHR :: "VkResult \<times> uint32_t"
  CreateSwapchainKHR :: "VkResult \<times> handle"
  GetSwapchainImagesKHR_count :: "VkResult \<times> uint32_t"
  GetSwapchainImagesKHR_images :: "VkResult \<times> (nat \<Rightarrow> handle)"
  new_VulkanBackbuffer :: "nat \<Rightarrow> VulkanBackbuffer"
  VulkanImage_IsValid :: "handle \<Rightarrow> bool"
  MakeFromBackendRenderTarget ::
    "handle \<Rightarrow> SkISize \<Rightarrow> SkColorType \<Rightarrow> SkColorSpace \<Rightarrow> SkSurface_ptr"

definition GetImages :: "construct_outcomes \<Rightarrow> handle list" where
  "GetImages env =
    (let count = snd (GetSwapchainImagesKHR_count env) in
     if fst (GetSwapchainImagesKHR_count env) \<noteq> VK_SUCCESS then []
     else if count = 0 then []
     else if fst (GetSwapchainImagesKHR_images env) \<noteq> VK_SUCCESS then []
     else map (snd (GetSwapchainImagesKHR_images env)) [0 ..< unat count])"

definition CreateSkiaSurface ::
  "construct_outcomes \<Rightarrow> handle option \<Rightarrow> handle \<Rightarrow> SkISize \<Rightarrow> SkColorType \<Rightarrow>
   SkColorSpace \<Rightarrow> SkSurface_ptr" where
  "CreateSkiaSurface env gr_context vk_image size_arg colour_type colour_space =
    (if gr_context = None then None
     else if colour_type = kUnknown_SkColorType then None
     else MakeFromBackendRenderTarget env vk_image size_arg colour_type colour_space)"

text \<open>The loop of \<^verbatim>\<open>CreateSwapchainImages\<close> over the images, one round after the other.\<close>

fun CreateSwapchainImages_loop ::
  "construct_outcomes \<Rightarrow> handle option \<Rightarrow> SkISize \<Rightarrow> SkColorType \<Rightarrow> SkColorSpace \<Rightarrow>
   handle list \<Rightarrow> VulkanSwapchain \<Rightarrow> bool \<times> VulkanSwapchain" where
  "CreateSwapchainImages_loop env skia_context surface_size colour_type colour_space [] s =
     (True, s)"
| "CreateSwapchainImages_loop env skia_context surface_size colour_type colour_space
     (vk_image # rest) s =
    (let backbuffer = new_VulkanBackbuffer env (length (backbuffers s)) in
     if \<not> bb_valid backbuffer then (False, s)
     else
     let s = s\<lparr>backbuffers := backbuffers s @ [backbuffer]\<rparr>;
         vulkan_image = \<lparr>image_handle = vk_image,
                         image_valid = VulkanImage_IsValid env vk_image\<rparr> in
     if \<not> image_valid vulkan_image then (False, s)
     else
     let s = s\<lparr>images := images s @ [vulkan_image]\<rparr>;
         surface = CreateSkiaSurface env skia_context vk_image surface_size colour_type
                     colour_space in
     if surface = None then (False, s)
     else CreateSwapchainImages_loop env skia_context surface_size colour_type colour_space
            rest (s\<lparr>surfaces := surfaces s @ [surface]\<rparr>))"

definition CreateSwapchainImages ::
  "construct_outcomes \<Rightarrow> handle option \<Rightarrow> SkColorType \<Rightarrow> SkColorSpace \<Rightarrow>
   VulkanSwapchain \<Rightarrow> bool \<times> VulkanSwapchain" where
  "CreateSwapchainImages env skia_context colour_type colour_space s =
    (let vk_images = GetImages env in
     if length vk_images = 0 then (False, s)
     else
     let surface_size = GetSize s in
     CreateSwapchainImages_loop env skia_context surface_size colour_type colour_space
       vk_images s)"

text \<open>The member initialisers of the constructor.\<close>

definition initial_swapchain :: "handle \<Rightarrow> handle \<Rightarrow> VulkanSwapchain" where
  "initial_swapchain p_vk dev =
    \<lparr>vk = p_vk, device = dev,
     capabilities = \<lparr>minImageCount = 0,
                      currentExtent = \<lparr>width = 0, height = 0\<rparr>,
                      minImageExtent = \<lparr>width = 0, height = 0\<rparr>,
                      maxImageExtent = \<lparr>width = 0, height = 0\<rparr>\<rparr>,
     surface_format = \<lparr>VkSurfaceFormatKHR.format = VK_FORMAT_UNDEFINED, colorSpace = 0\<rparr>,
     swapchain = 0, backbuffers = [], images = [], surfaces = [],
     current_pipeline_stage = VK_PIPELINE_STAGE_TOP_OF_PIPE_BIT,
     current_backbuffer_index = 0, current_image_index = 0, valid = False\<rparr>"

text \<open>
  The constructor \<^verbatim>\<open>VulkanSwapchain::VulkanSwapchain\<close>. It logs the request to choose a
  surface format and the creation of the native chain. \<^verbatim>\<open>format_infos[format_index]\<close>
  is unchecked.
\<close>

definition VulkanSwapchain_ctor ::
  "construct_outcomes \<Rightarrow> handle \<Rightarrow> handle \<Rightarrow> handle option \<Rightarrow> VulkanSwapchain option \<Rightarrow>
   (VulkanSwapchain \<times> event list) option" where
  "VulkanSwapchain_ctor env p_vk dev skia_context old_swapchain =
    (let s = initial_swapchain p_vk dev in
     if \<not> device_IsValid env \<or> \<not> surface_IsValid env \<or> skia_context = None
     then Some (s, [])
     else
     let s = s\<lparr>capabilities := snd (GetSurfaceCapabilities env)\<rparr> in
     if \<not> fst (GetSurfaceCapabilities env) then Some (s, [])
     else
     let format_infos = DesiredFormatInfos;
         desired_formats =
           map (\<lambda>fi. if colorTypeSupportedAsSurface env (color_type fi)
                      then FormatInfo.format fi else VK_FORMAT_UNDEFINED) format_infos;
         format_index = fst (ChooseSurfaceFormat env desired_formats);
         s = s\<lparr>surface_format := snd (ChooseSurfaceFormat env desired_formats)\<rparr>;
         log = [EvChooseSurfaceFormat desired_formats] in
     if format_index <s 0 then Some (s, log)
     else
     let present_mode = snd (ChoosePresentMode env) in
     if \<not> fst (ChoosePresentMode env) then Some (s, log)
     else if fst (GetPhysicalDeviceSurfaceSupportKHR env) \<noteq> VK_SUCCESS then Some (s, log)
     else if snd (GetPhysicalDeviceSurfaceSupportKHR env) \<noteq> 1 then Some (s, log)
     else
     let old_swapchain_handle =
           (case old_swapchain of None \<Rightarrow> 0
            | Some old \<Rightarrow> if IsValid old then swapchain old else 0);
         log = log @ [EvCreateSwapchainKHR (minImageCount (capabilities s))
                        (VkSurfaceFormatKHR.format (surface_format s))
                        (colorSpace (surface_format s)) (currentExtent (capabilities s))
                        present_mode old_swapchain_handle] in
     if fst (CreateSwapchainKHR env) \<noteq> VK_SUCCESS then Some (s, log)
     else
     let s = s\<lparr>swapchain := snd (CreateSwapchainKHR env)\<rparr> in
     case at format_infos (scast format_index) of None \<Rightarrow> None | Some fi \<Rightarrow>
     (case CreateSwapchainImages env skia_context (color_type fi) (color_space fi) s of
        (ok, s) \<Rightarrow> if \<not> ok then Some (s, log) else Some (s\<lparr>valid := True\<rparr>, log)))"

subsection \<open>The invariant of a swapchain, predicates on logs, examples\<close>

text \<open>
  The invariant of a swapchain: if it is valid, its three vectors have the same length
  \<open>N\<close> with \<open>0 < N\<close>, \<open>N\<close> fits \<^verbatim>\<open>size_t\<close>, both cursors are below \<open>N\<close>, and no surface
  is null.
\<close>

definition swapchain_inv :: "VulkanSwapchain \<Rightarrow> bool" where
  "swapchain_inv s =
    (IsValid s \<longrightarrow>
       length (backbuffers s) = length (images s) \<and>
       length (images s) = length (surfaces s) \<and>
       0 < length (backbuffers s) \<and>
       length (backbuffers s) < 2 ^ 64 \<and>
       unat (current_image_index s) < length (images s) \<and>
       unat (current_backbuffer_index s) < length (backbuffers s) \<and>
       list_all (\<lambda>p. p \<noteq> None) (surfaces s))"

text \<open>Which kind of call an event of the log is.\<close>

fun acquire_event :: "event \<Rightarrow> bool" where
  "acquire_event (EvAcquireNextImageKHR c m) = True"
| "acquire_event e = False"

fun barrier_event :: "event \<Rightarrow> bool" where
  "barrier_event (EvInsertImageMemoryBarrier i c a b d l) = True"
| "barrier_event e = False"

fun submit_event :: "event \<Rightarrow> bool" where
  "submit_event (EvQueueSubmit d st w sg c f) = True"
| "submit_event e = False"

fun present_event :: "event \<Rightarrow> bool" where
  "present_event (EvQueuePresentKHR d w c i) = True"
| "present_event e = False"

fun fence_event :: "event \<Rightarrow> bool" where
  "fence_event (EvWaitFences u r) = True"
| "fence_event (EvResetFences u r) = True"
| "fence_event e = False"

text \<open>
  What \<^verbatim>\<open>AcquireSurface\<close> has logged when it reaches step 3 with all calls before
  successful: nothing for a batched backbuffer, the wait on the fences and their reset
  otherwise.
\<close>

definition fence_log :: "VulkanBackbuffer \<Rightarrow> event list" where
  "fence_log bb =
    (if IsMultiThreading bb then []
     else [EvWaitFences (usage_fence bb) (render_fence bb),
           EvResetFences (usage_fence bb) (render_fence bb)])"

text \<open>
  A chain of two slots, the second one marked as batched, with the cursors at slot 0,
  and outcomes where every call succeeds and the platform hands out image 1.
\<close>

definition example_backbuffer :: "nat \<Rightarrow> bool \<Rightarrow> VulkanBackbuffer" where
  "example_backbuffer k batched =
    \<lparr>bb_valid = True, multi_threading = batched,
     usage_fence = 10 * k + 1, render_fence = 10 * k + 2,
     usage_semaphore = 10 * k + 3, render_semaphore = 10 * k + 4,
     usage_command_buffer = 10 * k + 5, render_command_buffer = 10 * k + 6\<rparr>"

definition example_swapchain :: VulkanSwapchain where
  "example_swapchain =
    \<lparr>vk = 1, device = 2,
     capabilities = \<lparr>minImageCount = 2,
                      currentExtent = \<lparr>width = 5000, height = 10\<rparr>,
                      minImageExtent = \<lparr>width = 1, height = 20\<rparr>,
                      maxImageExtent = \<lparr>width = 4096, height = 4096\<rparr>\<rparr>,
     surface_format = \<lparr>VkSurfaceFormatKHR.format = VK_FORMAT_R8G8B8A8_SRGB, colorSpace = 0\<rparr>,
     swapchain = 7,
     backbuffers = [example_backbuffer 1 False, example_backbuffer 2 True],
     images = [\<lparr>image_handle = 31, image_valid = True\<rparr>,
               \<lparr>image_handle = 32, image_valid = True\<rparr>],
     surfaces = [Some 41, Some 42],
     current_pipeline_stage = VK_PIPELINE_STAGE_TOP_OF_PIPE_BIT,
     current_backbuffer_index = 0, current_image_index = 0, valid = True\<rparr>"

definition all_ok :: vk_outcomes where
  "all_ok =
    \<lparr>WaitFences_ok = True, ResetFences_ok = True,
     AcquireNextImageKHR_result = VK_SUCCESS, AcquireNextImageKHR_index = 1,
     Begin_ok = True, InsertImageMemoryBarrier_ok = True, End_ok = True,
     QueueSubmit_ok = True, backendRT_isValid = True,
     QueuePresentKHR_result = VK_SUCCESS\<rparr>"

subsection \<open>Reading the registry\<close>

text \<open>
  \<open>registered h a\<close> is the swapchain at address \<open>a\<close> of the heap \<open>h\<close> with the backbuffer
  under its cursor, if both exist; \<open>chain_of\<close> and \<open>slot_of\<close> read them for an entry of
  the registry. \<open>flagged h a\<close> says that this backbuffer is marked as batched.
\<close>

definition registered ::
  "(address \<Rightarrow> VulkanSwapchain option) \<Rightarrow> address \<Rightarrow> (VulkanSwapchain \<times> VulkanBackbuffer) option" where
  "registered h a =
    (case h a of None \<Rightarrow> None
     | Some sc \<Rightarrow>
        (case at (backbuffers sc) (current_backbuffer_index sc) of None \<Rightarrow> None
         | Some bb \<Rightarrow> Some (sc, bb)))"

definition chain_of :: "(address \<Rightarrow> VulkanSwapchain option) \<Rightarrow> thread_id \<times> address \<Rightarrow> VulkanSwapchain" where
  "chain_of h e = fst (the (registered h (snd e)))"

definition slot_of :: "(address \<Rightarrow> VulkanSwapchain option) \<Rightarrow> thread_id \<times> address \<Rightarrow> VulkanBackbuffer" where
  "slot_of h e = snd (the (registered h (snd e)))"

definition flagged :: "(address \<Rightarrow> VulkanSwapchain option) \<Rightarrow> address \<Rightarrow> bool" where
  "flagged h a = (case registered h a of None \<Rightarrow> False | Some (sc, bb) \<Rightarrow> IsMultiThreading bb)"

text \<open>
  Two heaps are the same but for flags when they hold the same swapchains once every
  batched flag is cleared.
\<close>

definition unflag :: "VulkanSwapchain \<Rightarrow> VulkanSwapchain" where
  "unflag sc = sc\<lparr>backbuffers := map UnsetMultiThreading (backbuffers sc)\<rparr>"

definition same_but_flags ::
  "(address \<Rightarrow> VulkanSwapchain option) \<Rightarrow> (address \<Rightarrow> VulkanSwapchain option) \<Rightarrow> bool" where
  "same_but_flags h h' = (\<forall>a. map_option unflag (h' a) = map_option unflag (h a))"

fun choose_event :: "event \<Rightarrow> bool" where
  "choose_event (EvChooseSurfaceFormat fs) = True"
| "choose_event e = False"

text \<open>
  A registry with two threads, each with its own chain, and outcomes for the
  construction of a chain of three images: the backend cannot target the colour type
  \<^verbatim>\<open>kBGRA_8888\<close>, and the platform chooses the first candidate, or none.
\<close>

definition example_process :: process_state where
  "example_process =
    \<lparr>to_be_present = [(100, 500), (101, 501)],
     heap = Map.empty(500 \<mapsto> example_swapchain,
                      501 \<mapsto> example_swapchain\<lparr>swapchain := 8, current_backbuffer_index := 1,
                                current_image_index := 1\<rparr>)\<rparr>"

definition example_construct :: construct_outcomes where
  "example_construct =
    \<lparr>device_IsValid = True, surface_IsValid = True,
     GetSurfaceCapabilities = (True, capabilities example_swapchain),
     colorTypeSupportedAsSurface = (\<lambda>ct. ct \<noteq> kBGRA_8888_SkColorType),
     ChooseSurfaceFormat =
       (\<lambda>fs. (0, \<lparr>VkSurfaceFormatKHR.format = VK_FORMAT_R8G8B8A8_SRGB, colorSpace = 0\<rparr>)),
     ChoosePresentMode = (True, VK_PRESENT_MODE_FIFO_KHR),
     GetPhysicalDeviceSurfaceSupportKHR = (VK_SUCCESS, 1),
     CreateSwapchainKHR = (VK_SUCCESS, 7),
     GetSwapchainImagesKHR_count = (VK_SUCCESS, 3),
     GetSwapchainImagesKHR_images = (VK_SUCCESS, (\<lambda>i. 31 + i)),
     new_VulkanBackbuffer = (\<lambda>i. example_backbuffer (i + 1) False),
     VulkanImage_IsValid = (\<lambda>h. h \<noteq> 0),
     MakeFromBackendRenderTarget = (\<lambda>i sz ct cs. Some (i + 10))\<rparr>"

definition example_no_format :: construct_outcomes where
  "example_no_format =
     example_construct\<lparr>ChooseSurfaceFormat :=
       (\<lambda>fs. (- 1, \<lparr>VkSurfaceFormatKHR.format = VK_FORMAT_UNDEFINED, colorSpace = 0\<rparr>))\<rparr>"

text \<open>
  Two chains for \<^verbatim>\<open>GetSize\<close>. The first has capabilities whose maximum extent is the
  largest \<^verbatim>\<open>uint32_t\<close> and a current extent above \<^verbatim>\<open>INT32_MAX\<close>; in the second the
  minimum width is above the maximum width.
\<close>

definition wide_extent_swapchain :: VulkanSwapchain where
  "wide_extent_swapchain =
    example_swapchain\<lparr>capabilities :=
      \<lparr>minImageCount = 2,
       currentExtent = \<lparr>width = 0x80000000, height = 0xFFFFFFFF\<rparr>,
       minImageExtent = \<lparr>width = 1, height = 1\<rparr>,
       maxImageExtent = \<lparr>width = 0xFFFFFFFF, height = 0xFFFFFFFF\<rparr>\<rparr>\<rparr>"

definition empty_interval_swapchain :: VulkanSwapchain where
  "empty_interval_swapchain =
    example_swapchain\<lparr>capabilities :=
      \<lparr>minImageCount = 2,
       currentExtent = \<lparr>width = 5, height = 5\<rparr>,
       minImageExtent = \<lparr>width = 10, height = 1\<rparr>,
       maxImageExtent = \<lparr>width = 3, height = 4096\<rparr>\<rparr>\<rparr>"

section \<open>Properties\<close>

subsection \<open>Auxiliary facts\<close>

lemma sint_small: "(w :: 32 word) \<le> 0x7FFFFFFF \<Longrightarrow> sint w = uint w"
proof -
  assume "w \<le> 0x7FFFFFFF"
  then have "uint w \<le> 2147483647" by (simp add: word_le_def)
  moreover have "- 2147483648 \<le> uint w" using uint_ge_0 [of w] by linarith
  ultimately show ?thesis
    by (simp add: sint_uint signed_take_bit_int_eq_self_iff)
qed

lemma vec_size_unat: "length xs < 2 ^ 64 \<Longrightarrow> unat (vec_size xs) = length xs"
  by (simp add: vec_size_def unat_of_nat)

lemma unat_vec_size_le: "unat (vec_size xs) \<le> length xs"
  by (simp add: vec_size_def unat_of_nat) 

lemma GetNextBackbuffer_rotates:
  assumes "0 < length (backbuffers s)" "length (backbuffers s) < 2 ^ 64"
    and "unat (current_backbuffer_index s) < length (backbuffers s)"
  shows "\<exists>bi. unat bi = (unat (current_backbuffer_index s) + 1) mod length (backbuffers s) \<and>
    GetNextBackbuffer s =
      (if bb_valid (backbuffers s ! unat bi)
       then Some (Some (bi, backbuffers s ! unat bi), s\<lparr>current_backbuffer_index := bi\<rparr>)
       else Some (None, s))"
proof -
  let ?n = "length (backbuffers s)"
  let ?bi = "(current_backbuffer_index s + 1) mod vec_size (backbuffers s)"
  have sz: "unat (vec_size (backbuffers s)) = ?n" using assms(2) by (rule vec_size_unat)
  have nz: "vec_size (backbuffers s) \<noteq> 0" using sz assms(1) by (metis unat_0 less_numeral_extra(3))
  have "unat (current_backbuffer_index s) + 1 < 2 ^ 64" using assms(2,3) by simp
  then have "unat (current_backbuffer_index s + 1) = unat (current_backbuffer_index s) + 1"
    by (simp add: unat_word_ariths)
  then have bi: "unat ?bi = (unat (current_backbuffer_index s) + 1) mod ?n"
    by (simp add: unat_mod sz)
  have "unat ?bi < ?n" using bi assms(1) by simp
  then have "at (backbuffers s) ?bi = Some (backbuffers s ! unat ?bi)" by (simp add: at_def)
  then have "GetNextBackbuffer s =
      (if bb_valid (backbuffers s ! unat ?bi)
       then Some (Some (?bi, backbuffers s ! unat ?bi), s\<lparr>current_backbuffer_index := ?bi\<rparr>)
       else Some (None, s))"
    using nz by (simp add: GetNextBackbuffer_def Let_def)
  with bi show ?thesis by blast
qed

lemma step3_frame:
  assumes "AcquireSurface_from_step3 env s bi bb log0 = Some (r, s', log)"
  shows "current_backbuffer_index s' = current_backbuffer_index s \<and> valid s' = valid s \<and>
         images s' = images s \<and> surfaces s' = surfaces s \<and>
         length (backbuffers s') = length (backbuffers s)"
  using assms
  by (auto simp: AcquireSurface_from_step3_def Let_def
           split: VkResult.splits option.splits if_splits)

lemma step3_total:
  assumes "length (images s) = length (surfaces s)"
  shows "\<exists>r s' log. AcquireSurface_from_step3 env s bi bb log0 = Some (r, s', log)"
proof -
  let ?i = "ucast (AcquireNextImageKHR_index env) :: size_t"
  have a: "vec_size (images s) \<le> ?i \<or>
     (\<exists>x y. at (images s) ?i = Some x \<and> at (surfaces s) ?i = Some y)"
    using unat_vec_size_le [of "images s"] assms
    by (auto simp add: at_def word_le_nat_alt not_le)
  then show ?thesis
    by (elim disjE exE conjE)
       (simp_all add: AcquireSurface_from_step3_def Let_def
           split: VkResult.splits option.splits)
qed

lemma step3_status:
  assumes "AcquireSurface_from_step3 env s bi bb log0 = Some ((st, surf), s', log)"
  shows "(st \<noteq> Success \<longrightarrow> surf = None \<and> current_image_index s' = current_image_index s) \<and>
         (st = Success \<longrightarrow> surf \<noteq> None \<and> AcquireNextImageKHR_result env = VK_SUCCESS \<and>
            current_image_index s' = ucast (AcquireNextImageKHR_index env) \<and>
            unat (current_image_index s') < length (images s))"
  using assms unat_vec_size_le [of "images s"]
  by (auto simp: AcquireSurface_from_step3_def Let_def word_le_nat_alt
           split: VkResult.splits option.splits if_splits)

lemma step3_platform_error:
  assumes "AcquireSurface_from_step3 env s bi bb log0 = Some ((st, surf), s', log)"
    and "AcquireNextImageKHR_result env \<noteq> VK_SUCCESS"
  shows "s' = s \<and> surf = None \<and>
         st = (if AcquireNextImageKHR_result env = VK_ERROR_OUT_OF_DATE_KHR
               then ErrorSurfaceOutOfDate else ErrorSurfaceLost)"
  using assms
  by (auto simp: AcquireSurface_from_step3_def Let_def
           split: VkResult.splits option.splits if_splits)

lemma step3_stage:
  assumes "AcquireSurface_from_step3 env s bi bb log0 = Some ((st, surf), s', log)"
    and "\<not> list_ex barrier_event log0"
  shows "(list_ex barrier_event log \<and> \<not> InsertImageMemoryBarrier_ok env \<longrightarrow>
            current_pipeline_stage s' = current_pipeline_stage s \<and>
            st = ErrorSurfaceLost \<and> surf = None) \<and>
         (list_ex barrier_event log \<and> InsertImageMemoryBarrier_ok env \<longrightarrow>
            current_pipeline_stage s' = VK_PIPELINE_STAGE_COLOR_ATTACHMENT_OUTPUT_BIT) \<and>
         (\<not> list_ex barrier_event log \<longrightarrow>
            current_pipeline_stage s' = current_pipeline_stage s)"
  using assms
  by (auto simp: AcquireSurface_from_step3_def Let_def
           split: VkResult.splits option.splits if_splits)

lemma step3_nobarrier:
  assumes "AcquireSurface_from_step3 env s bi bb log0 = Some ((st, surf), s', log)"
    and "\<not> list_ex barrier_event log0"
  shows "\<not> list_ex barrier_event log \<longrightarrow> st \<noteq> Success"
  using assms
  by (auto simp: AcquireSurface_from_step3_def Let_def
           split: VkResult.splits option.splits if_splits)

lemma step3_flag:
  assumes "AcquireSurface_from_step3 env s bi bb log0 = Some ((st, surf), s', log)"
    and "\<not> list_ex submit_event log0"
  shows "(list_ex submit_event log \<and> QueueSubmit_ok env \<longrightarrow>
            backbuffers s' = list_update (backbuffers s) (unat bi) (UnsetMultiThreading bb)) \<and>
         (\<not> (list_ex submit_event log \<and> QueueSubmit_ok env) \<longrightarrow>
            backbuffers s' = backbuffers s)"
  using assms
  by (auto simp: AcquireSurface_from_step3_def Let_def
           split: VkResult.splits option.splits if_splits)

lemma step3_log:
  assumes "AcquireSurface_from_step3 env s bi bb log0 = Some ((st, surf), s', log)"
  shows "\<exists>rest. log = log0 @ EvAcquireNextImageKHR (swapchain s) (usage_semaphore bb) # rest \<and>
           \<not> list_ex fence_event rest \<and> \<not> list_ex acquire_event rest"
  using assms
  by (auto simp: AcquireSurface_from_step3_def Let_def
           split: VkResult.splits option.splits if_splits)

lemma AcquireSurface_cases:
  assumes "swapchain_inv s"
  obtains
    (invalid) "\<not> IsValid s" "AcquireSurface env s = Some ((ErrorSurfaceLost, None), s, [])"
  | (no_slot) bi :: size_t where "IsValid s"
      "unat bi = (unat (current_backbuffer_index s) + 1) mod length (backbuffers s)"
      "\<not> bb_valid (backbuffers s ! unat bi)"
      "GetNextBackbuffer s = Some (None, s)"
      "AcquireSurface env s = Some ((ErrorSurfaceLost, None), s, [])"
  | (wait_failed) bi bb where "IsValid s"
      "unat bi = (unat (current_backbuffer_index s) + 1) mod length (backbuffers s)"
      "bb = backbuffers s ! unat bi" "bb_valid bb"
      "GetNextBackbuffer s = Some (Some (bi, bb), s\<lparr>current_backbuffer_index := bi\<rparr>)"
      "\<not> IsMultiThreading bb" "\<not> WaitFences_ok env"
      "AcquireSurface env s =
         Some ((ErrorSurfaceLost, None), s\<lparr>current_backbuffer_index := bi\<rparr>,
               [EvWaitFences (usage_fence bb) (render_fence bb)])"
      "unat bi < length (backbuffers s)"
  | (reset_failed) bi bb where "IsValid s"
      "unat bi = (unat (current_backbuffer_index s) + 1) mod length (backbuffers s)"
      "bb = backbuffers s ! unat bi" "bb_valid bb"
      "GetNextBackbuffer s = Some (Some (bi, bb), s\<lparr>current_backbuffer_index := bi\<rparr>)"
      "\<not> IsMultiThreading bb" "WaitFences_ok env" "\<not> ResetFences_ok env"
      "AcquireSurface env s =
         Some ((ErrorSurfaceLost, None), s\<lparr>current_backbuffer_index := bi\<rparr>,
               [EvWaitFences (usage_fence bb) (render_fence bb),
                EvResetFences (usage_fence bb) (render_fence bb)])"
      "unat bi < length (backbuffers s)"
  | (step3) bi bb where "IsValid s"
      "unat bi = (unat (current_backbuffer_index s) + 1) mod length (backbuffers s)"
      "bb = backbuffers s ! unat bi" "bb_valid bb"
      "GetNextBackbuffer s = Some (Some (bi, bb), s\<lparr>current_backbuffer_index := bi\<rparr>)"
      "IsMultiThreading bb \<or> (WaitFences_ok env \<and> ResetFences_ok env)"
      "AcquireSurface env s =
         AcquireSurface_from_step3 env (s\<lparr>current_backbuffer_index := bi\<rparr>) bi bb (fence_log bb)"
      "unat bi < length (backbuffers s)"
proof (cases "IsValid s")
  case False
  then show ?thesis using invalid by (simp add: AcquireSurface_def)
next
  case True
  with assms have n: "0 < length (backbuffers s)" "length (backbuffers s) < 2 ^ 64"
    "unat (current_backbuffer_index s) < length (backbuffers s)"
    by (auto simp add: swapchain_inv_def)
  from GetNextBackbuffer_rotates [OF this] obtain bi where
    bi: "unat bi = (unat (current_backbuffer_index s) + 1) mod length (backbuffers s)" and
    g: "GetNextBackbuffer s =
      (if bb_valid (backbuffers s ! unat bi)
       then Some (Some (bi, backbuffers s ! unat bi), s\<lparr>current_backbuffer_index := bi\<rparr>)
       else Some (None, s))" by blast
  show ?thesis
  proof (cases "bb_valid (backbuffers s ! unat bi)")
    case False
    with g True bi show ?thesis using no_slot [of bi] by (simp add: AcquireSurface_def)
  next
    case bbv: True
    let ?bb = "backbuffers s ! unat bi"
    from g bbv have g': "GetNextBackbuffer s =
      Some (Some (bi, ?bb), s\<lparr>current_backbuffer_index := bi\<rparr>)" by simp
    from bi n(1) have lt: "unat bi < length (backbuffers s)" by simp
    consider (a) "\<not> IsMultiThreading ?bb" "\<not> WaitFences_ok env"
      | (b) "\<not> IsMultiThreading ?bb" "WaitFences_ok env" "\<not> ResetFences_ok env"
      | (c) "IsMultiThreading ?bb \<or> (WaitFences_ok env \<and> ResetFences_ok env)" by blast
    then show ?thesis
    proof cases
      case a
      then show ?thesis using wait_failed [of bi ?bb] True bi bbv g' lt
        by (simp add: AcquireSurface_def)
    next
      case b
      then show ?thesis using reset_failed [of bi ?bb] True bi bbv g' lt
        by (simp add: AcquireSurface_def)
    next
      case c
      then have "AcquireSurface env s =
         AcquireSurface_from_step3 env (s\<lparr>current_backbuffer_index := bi\<rparr>) bi ?bb (fence_log ?bb)"
        using True g' by (auto simp add: AcquireSurface_def fence_log_def)
      then show ?thesis using step3 [of bi ?bb] True bi bbv g' c lt by simp
    qed
  qed
qed

lemma AcquireSurface_total:
  assumes "swapchain_inv s"
  shows "\<exists>st surf s' log. AcquireSurface env s = Some ((st, surf), s', log)"
  using assms
proof (cases rule: AcquireSurface_cases [where env = env])
  case (step3 bi bb)
  let ?s1 = "s\<lparr>current_backbuffer_index := bi\<rparr>"
  from step3(1) assms have "length (images ?s1) = length (surfaces ?s1)"
    by (simp add: swapchain_inv_def)
  from step3_total [OF this] step3(7) show ?thesis by (metis surj_pair)
qed simp_all

lemma current_slots_in_range:
  assumes "IsValid s" and "swapchain_inv s"
  shows "\<exists>sf img bb. at (surfaces s) (current_image_index s) = Some (Some sf) \<and>
           at (images s) (current_image_index s) = Some img \<and>
           at (backbuffers s) (current_backbuffer_index s) = Some bb"
proof -
  from assms have i: "unat (current_image_index s) < length (surfaces s)"
    and j: "unat (current_image_index s) < length (images s)"
    and k: "unat (current_backbuffer_index s) < length (backbuffers s)"
    and n: "list_all (\<lambda>p. p \<noteq> None) (surfaces s)"
    by (auto simp: swapchain_inv_def)
  from n i have "surfaces s ! unat (current_image_index s) \<noteq> None"
    by (simp add: list_all_length)
  with i j k show ?thesis by (auto simp: at_def)
qed

lemma Submit_total:
  assumes "swapchain_inv s"
  shows "\<exists>ok s' log. Submit env s = Some (ok, s', log)"
proof -
  have "Submit env s \<noteq> None"
  proof (cases "IsValid s")
    case False
    then show ?thesis by (simp add: Submit_def)
  next
    case True
    from current_slots_in_range [OF True assms] obtain sf img bb where
      "at (surfaces s) (current_image_index s) = Some (Some sf)"
      "at (images s) (current_image_index s) = Some img"
      "at (backbuffers s) (current_backbuffer_index s) = Some bb" by blast
    with True show ?thesis by (auto simp add: Submit_def Let_def)
  qed
  then show ?thesis by (metis not_None_eq surj_pair)
qed

lemma FlushCommands_total:
  assumes "swapchain_inv s"
  shows "\<exists>ok s' log. FlushCommands env s = Some (ok, s', log)"
proof -
  have "FlushCommands env s \<noteq> None"
  proof (cases "IsValid s")
    case False
    then show ?thesis by (simp add: FlushCommands_def)
  next
    case True
    from current_slots_in_range [OF True assms] obtain sf img bb where
      "at (surfaces s) (current_image_index s) = Some (Some sf)"
      "at (images s) (current_image_index s) = Some img"
      "at (backbuffers s) (current_backbuffer_index s) = Some bb" by blast
    with True show ?thesis by (auto simp add: FlushCommands_def Let_def)
  qed
  then show ?thesis by (metis not_None_eq surj_pair)
qed

lemma Submit_stage:
  assumes "Submit env s = Some (ok, s', log)"
  shows "(list_ex barrier_event log \<and> \<not> InsertImageMemoryBarrier_ok env \<longrightarrow>
       current_pipeline_stage s' = current_pipeline_stage s \<and> \<not> ok) \<and>
    (list_ex barrier_event log \<and> InsertImageMemoryBarrier_ok env \<longrightarrow>
       current_pipeline_stage s' = VK_PIPELINE_STAGE_BOTTOM_OF_PIPE_BIT) \<and>
    (\<not> list_ex barrier_event log \<longrightarrow>
       current_pipeline_stage s' = current_pipeline_stage s \<and> \<not> ok)"
  using assms
  by (auto simp: Submit_def Let_def split: option.splits if_splits)

lemma FlushCommands_stage:
  assumes "FlushCommands env s = Some (ok, s', log)"
  shows "(list_ex barrier_event log \<and> \<not> InsertImageMemoryBarrier_ok env \<longrightarrow>
       current_pipeline_stage s' = current_pipeline_stage s \<and> \<not> ok) \<and>
    (list_ex barrier_event log \<and> InsertImageMemoryBarrier_ok env \<longrightarrow>
       current_pipeline_stage s' = VK_PIPELINE_STAGE_BOTTOM_OF_PIPE_BIT) \<and>
    (\<not> list_ex barrier_event log \<longrightarrow>
       current_pipeline_stage s' = current_pipeline_stage s \<and> \<not> ok)"
  using assms
  by (auto simp: FlushCommands_def Let_def split: option.splits if_splits)

lemma AcquireSurface_stage:
  assumes "swapchain_inv s"
  shows "\<exists>st surf s' log. AcquireSurface env s = Some ((st, surf), s', log) \<and>
    (list_ex barrier_event log \<and> \<not> InsertImageMemoryBarrier_ok env \<longrightarrow>
       current_pipeline_stage s' = current_pipeline_stage s \<and>
       st = ErrorSurfaceLost \<and> surf = None) \<and>
    (list_ex barrier_event log \<and> InsertImageMemoryBarrier_ok env \<longrightarrow>
       current_pipeline_stage s' = VK_PIPELINE_STAGE_COLOR_ATTACHMENT_OUTPUT_BIT) \<and>
    (\<not> list_ex barrier_event log \<longrightarrow>
       current_pipeline_stage s' = current_pipeline_stage s \<and> st \<noteq> Success)"
proof -
  from AcquireSurface_total [OF assms] obtain st surf s' log where
    r: "AcquireSurface env s = Some ((st, surf), s', log)" by blast
  from assms have "(list_ex barrier_event log \<and> \<not> InsertImageMemoryBarrier_ok env \<longrightarrow>
       current_pipeline_stage s' = current_pipeline_stage s \<and>
       st = ErrorSurfaceLost \<and> surf = None) \<and>
    (list_ex barrier_event log \<and> InsertImageMemoryBarrier_ok env \<longrightarrow>
       current_pipeline_stage s' = VK_PIPELINE_STAGE_COLOR_ATTACHMENT_OUTPUT_BIT) \<and>
    (\<not> list_ex barrier_event log \<longrightarrow>
       current_pipeline_stage s' = current_pipeline_stage s \<and> st \<noteq> Success)"
  proof (cases rule: AcquireSurface_cases [where env = env])
    case (step3 bi bb)
    let ?s1 = "s\<lparr>current_backbuffer_index := bi\<rparr>"
    from step3(7) r have
      r3: "AcquireSurface_from_step3 env ?s1 bi bb (fence_log bb) = Some ((st, surf), s', log)"
      by simp
    have "\<not> list_ex barrier_event (fence_log bb)" by (simp add: fence_log_def)
    from step3_stage [OF r3 this] step3_nobarrier [OF r3 this] show ?thesis by simp
  qed (use r in auto)
  with r show ?thesis by blast
qed

lemma example_swapchain_inv: "IsValid example_swapchain \<and> swapchain_inv example_swapchain"
  by (simp add: swapchain_inv_def IsValid_def example_swapchain_def)

lemmas example_defs = example_swapchain_def example_backbuffer_def all_ok_def
  AcquireSurface_def AcquireSurface_from_step3_def GetNextBackbuffer_def at_def vec_size_def
  IsValid_def IsMultiThreading_def UnsetMultiThreading_def SetMultiThreading_def Let_def
  word_le_nat_alt word_less_nat_alt

lemma unflag_update:
  assumes "i < length (backbuffers sc)"
  shows "unflag (sc\<lparr>backbuffers := list_update (backbuffers sc) i
                    (SetMultiThreading (backbuffers sc ! i))\<rparr>) = unflag sc"
proof -
  have "UnsetMultiThreading (SetMultiThreading (backbuffers sc ! i))
        = map UnsetMultiThreading (backbuffers sc) ! i"
    using assms by (simp add: UnsetMultiThreading_def SetMultiThreading_def)
  then show ?thesis
    by (simp add: unflag_def map_update)
qed

lemma same_but_flags_refl: "same_but_flags h h"
  by (simp add: same_but_flags_def)

lemma same_but_flags_trans:
  "same_but_flags h h' \<Longrightarrow> same_but_flags h' h'' \<Longrightarrow> same_but_flags h h''"
  by (simp add: same_but_flags_def)

lemma same_but_flags_sym: "same_but_flags h h' \<Longrightarrow> same_but_flags h' h"
  by (simp add: same_but_flags_def)

lemma same_but_flags_registered:
  assumes "same_but_flags h h'" and "registered h a = Some (sc, bb)"
  shows "\<exists>sc' bb'. registered h' a = Some (sc', bb') \<and>
           device sc' = device sc \<and> swapchain sc' = swapchain sc \<and>
           current_image_index sc' = current_image_index sc \<and>
           current_backbuffer_index sc' = current_backbuffer_index sc \<and>
           render_semaphore bb' = render_semaphore bb \<and>
           render_command_buffer bb' = render_command_buffer bb"
proof -
  from assms(2) have ha: "h a = Some sc"
    and i: "unat (current_backbuffer_index sc) < length (backbuffers sc)"
    and bb: "bb = backbuffers sc ! unat (current_backbuffer_index sc)"
    by (auto simp: registered_def at_def split: option.splits if_splits)
  from assms(1) ha obtain sc' where h'a: "h' a = Some sc'" and u: "unflag sc' = unflag sc"
    by (auto simp: same_but_flags_def dest!: spec [where x = a])
  from u have f: "device sc' = device sc" "swapchain sc' = swapchain sc"
    "current_image_index sc' = current_image_index sc"
    "current_backbuffer_index sc' = current_backbuffer_index sc"
    and m: "map UnsetMultiThreading (backbuffers sc') = map UnsetMultiThreading (backbuffers sc)"
    by (auto simp: unflag_def dest: arg_cong [where f = device]
        arg_cong [where f = swapchain] arg_cong [where f = current_image_index]
        arg_cong [where f = current_backbuffer_index] arg_cong [where f = backbuffers])
  from m have len: "length (backbuffers sc') = length (backbuffers sc)"
    by (metis length_map)
  let ?i = "unat (current_backbuffer_index sc)"
  let ?bb' = "backbuffers sc' ! ?i"
  from m i len have "UnsetMultiThreading ?bb' = UnsetMultiThreading bb"
    unfolding bb by (metis nth_map)
  then have e: "render_semaphore ?bb' = render_semaphore bb"
    "render_command_buffer ?bb' = render_command_buffer bb"
    by (auto simp: UnsetMultiThreading_def dest: arg_cong [where f = render_semaphore]
        arg_cong [where f = render_command_buffer])
  have "registered h' a = Some (sc', ?bb')"
    using h'a i len f by (simp add: registered_def at_def)
  with f e show ?thesis by blast
qed

lemma same_but_flags_proj:
  assumes "same_but_flags h h'" and "registered h (snd e) \<noteq> None"
  shows "registered h' (snd e) \<noteq> None \<and>
         render_semaphore (slot_of h' e) = render_semaphore (slot_of h e) \<and>
         render_command_buffer (slot_of h' e) = render_command_buffer (slot_of h e) \<and>
         swapchain (chain_of h' e) = swapchain (chain_of h e) \<and>
         device (chain_of h' e) = device (chain_of h e) \<and>
         current_image_index (chain_of h' e) = current_image_index (chain_of h e) \<and>
         current_backbuffer_index (chain_of h' e) = current_backbuffer_index (chain_of h e)"
proof -
  from assms(2) obtain sc bb where r: "registered h (snd e) = Some (sc, bb)" by auto
  from same_but_flags_registered [OF assms(1) r] r show ?thesis
    by (auto simp: slot_of_def chain_of_def)
qed

lemma loop_step_heap:
  assumes "registered h a = Some (sc, bb)"
  shows "same_but_flags h
           (h(a \<mapsto> sc\<lparr>backbuffers :=
                 list_update (backbuffers sc) (unat (current_backbuffer_index sc))
                   (SetMultiThreading bb)\<rparr>))"
proof -
  from assms have ha: "h a = Some sc"
    and i: "unat (current_backbuffer_index sc) < length (backbuffers sc)"
    and bb: "bb = backbuffers sc ! unat (current_backbuffer_index sc)"
    by (auto simp: registered_def at_def split: option.splits if_splits)
  from unflag_update [OF i] ha show ?thesis
    by (simp add: same_but_flags_def bb)
qed

lemma PresentAll_loop_result:
  assumes "\<forall>e\<in>set reg. registered h (snd e) \<noteq> None"
  shows "\<exists>h'. PresentAll_loop reg h =
           Some (h',
                 map (\<lambda>e. render_semaphore (slot_of h e)) reg,
                 map (\<lambda>e. render_command_buffer (slot_of h e)) reg,
                 map (\<lambda>e. swapchain (chain_of h e)) reg,
                 map (\<lambda>e. ucast (current_image_index (chain_of h e))) reg,
                 concat (map (\<lambda>e. [EvRegistry RegIterate,
                                     EvSetMultiThreading (snd e)
                                       (current_backbuffer_index (chain_of h e))]) reg)) \<and>
           same_but_flags h h'"
  using assms
proof (induction reg arbitrary: h)
  case Nil
  then show ?case by (simp add: same_but_flags_refl)
next
  case (Cons e rest)
  from Cons.prems obtain sc bb where r: "registered h (snd e) = Some (sc, bb)" by auto
  then have ha: "h (snd e) = Some sc"
    and at: "at (backbuffers sc) (current_backbuffer_index sc) = Some bb"
    by (auto simp: registered_def split: option.splits)
  let ?h1 = "h(snd e \<mapsto> sc\<lparr>backbuffers :=
                 list_update (backbuffers sc) (unat (current_backbuffer_index sc))
                   (SetMultiThreading bb)\<rparr>)"
  have s1: "same_but_flags h ?h1" using r by (rule loop_step_heap)
  have p: "\<forall>e'\<in>set rest. registered ?h1 (snd e') \<noteq> None \<and>
         render_semaphore (slot_of ?h1 e') = render_semaphore (slot_of h e') \<and>
         render_command_buffer (slot_of ?h1 e') = render_command_buffer (slot_of h e') \<and>
         swapchain (chain_of ?h1 e') = swapchain (chain_of h e') \<and>
         device (chain_of ?h1 e') = device (chain_of h e') \<and>
         current_image_index (chain_of ?h1 e') = current_image_index (chain_of h e') \<and>
         current_backbuffer_index (chain_of ?h1 e') = current_backbuffer_index (chain_of h e')"
    using same_but_flags_proj [OF s1] Cons.prems by simp
  then have "\<forall>e'\<in>set rest. registered ?h1 (snd e') \<noteq> None" by blast
  from Cons.IH [OF this] obtain h' where
    l: "PresentAll_loop rest ?h1 =
           Some (h',
                 map (\<lambda>e. render_semaphore (slot_of ?h1 e)) rest,
                 map (\<lambda>e. render_command_buffer (slot_of ?h1 e)) rest,
                 map (\<lambda>e. swapchain (chain_of ?h1 e)) rest,
                 map (\<lambda>e. ucast (current_image_index (chain_of ?h1 e))) rest,
                 concat (map (\<lambda>e. [EvRegistry RegIterate,
                                     EvSetMultiThreading (snd e)
                                       (current_backbuffer_index (chain_of ?h1 e))]) rest))"
    and s2: "same_but_flags ?h1 h'" by blast
  have m1: "map (\<lambda>e. render_semaphore (slot_of ?h1 e)) rest
            = map (\<lambda>e. render_semaphore (slot_of h e)) rest"
    and m2: "map (\<lambda>e. render_command_buffer (slot_of ?h1 e)) rest
            = map (\<lambda>e. render_command_buffer (slot_of h e)) rest"
    and m3: "map (\<lambda>e. swapchain (chain_of ?h1 e)) rest
            = map (\<lambda>e. swapchain (chain_of h e)) rest"
    and m4: "map (\<lambda>e. (ucast (current_image_index (chain_of ?h1 e)) :: uint32_t)) rest
            = map (\<lambda>e. ucast (current_image_index (chain_of h e))) rest"
    and m5: "map (\<lambda>e. [EvRegistry RegIterate,
                        EvSetMultiThreading (snd e) (current_backbuffer_index (chain_of ?h1 e))]) rest
            = map (\<lambda>e. [EvRegistry RegIterate,
                        EvSetMultiThreading (snd e) (current_backbuffer_index (chain_of h e))]) rest"
    using p by (simp_all cong: map_cong)
  have e: "slot_of h e = bb" "chain_of h e = sc" using r by (simp_all add: slot_of_def chain_of_def)
  have "PresentAll_loop (e # rest) h =
           Some (h',
                 map (\<lambda>e. render_semaphore (slot_of h e)) (e # rest),
                 map (\<lambda>e. render_command_buffer (slot_of h e)) (e # rest),
                 map (\<lambda>e. swapchain (chain_of h e)) (e # rest),
                 map (\<lambda>e. ucast (current_image_index (chain_of h e))) (e # rest),
                 concat (map (\<lambda>e. [EvRegistry RegIterate,
                                     EvSetMultiThreading (snd e)
                                       (current_backbuffer_index (chain_of h e))]) (e # rest)))"
    using ha at l by (simp add: Let_def m1 m2 m3 m4 m5 e)
  moreover have "same_but_flags h h'" using s1 s2 by (rule same_but_flags_trans)
  ultimately show ?case by blast
qed

lemma flagged_step:
  assumes "registered h a = Some (sc, bb)"
  shows "flagged (h(a \<mapsto> sc\<lparr>backbuffers :=
                 list_update (backbuffers sc) (unat (current_backbuffer_index sc))
                   (SetMultiThreading bb)\<rparr>)) a'
         = (a' = a \<or> flagged h a')"
proof -
  from assms have ha: "h a = Some sc"
    and i: "unat (current_backbuffer_index sc) < length (backbuffers sc)"
    by (auto simp: registered_def at_def split: option.splits if_splits)
  then show ?thesis
    by (auto simp: flagged_def registered_def at_def SetMultiThreading_def IsMultiThreading_def
             split: option.splits)
qed

lemma PresentAll_loop_flags:
  assumes "PresentAll_loop reg h = Some (h', x)"
  shows "(\<forall>a. flagged h a \<longrightarrow> flagged h' a) \<and> (\<forall>e\<in>set reg. flagged h' (snd e))"
  using assms
proof (induction reg arbitrary: h x)
  case Nil
  then show ?case by simp
next
  case (Cons e rest)
  from Cons.prems obtain sc bb where ha: "h (snd e) = Some sc"
    and at: "at (backbuffers sc) (current_backbuffer_index sc) = Some bb"
    by (auto split: option.splits)
  then have r: "registered h (snd e) = Some (sc, bb)" by (simp add: registered_def)
  let ?h1 = "h(snd e \<mapsto> sc\<lparr>backbuffers :=
                 list_update (backbuffers sc) (unat (current_backbuffer_index sc))
                   (SetMultiThreading bb)\<rparr>)"
  from Cons.prems ha at obtain y where l: "PresentAll_loop rest ?h1 = Some (h', y)"
    by (auto simp: Let_def split: option.splits)
  have a: "\<forall>a. flagged h a \<longrightarrow> flagged ?h1 a" and b: "flagged ?h1 (snd e)"
    using flagged_step [OF r] by blast+
  from Cons.IH [OF l] have c: "\<forall>a. flagged ?h1 a \<longrightarrow> flagged h' a"
    and d: "\<forall>e\<in>set rest. flagged h' (snd e)" by blast+
  show ?case using a b c d by (metis set_ConsD)
qed

lemma loop_events_no_call:
  "filter submit_event (concat (map (\<lambda>e. [EvRegistry RegIterate, EvSetMultiThreading (f e) (g e)]) reg)) = [] \<and>
   filter present_event (concat (map (\<lambda>e. [EvRegistry RegIterate, EvSetMultiThreading (f e) (g e)]) reg)) = []"
  by (induction reg) simp_all

lemma loop_events_marks:
  "e \<in> set reg \<Longrightarrow>
   EvSetMultiThreading (f e) (g e)
     \<in> set (concat (map (\<lambda>e. [EvRegistry RegIterate, EvSetMultiThreading (f e) (g e)]) reg))"
  by (induction reg) auto

lemma PresentAll_loop_same:
  assumes "PresentAll_loop reg h = Some (h', x)"
  shows "same_but_flags h h'"
  using assms
proof (induction reg arbitrary: h x)
  case Nil
  then show ?case by (simp add: same_but_flags_refl)
next
  case (Cons e rest)
  from Cons.prems obtain sc bb where ha: "h (snd e) = Some sc"
    and at: "at (backbuffers sc) (current_backbuffer_index sc) = Some bb"
    by (auto split: option.splits)
  then have r: "registered h (snd e) = Some (sc, bb)" by (simp add: registered_def)
  let ?h1 = "h(snd e \<mapsto> sc\<lparr>backbuffers :=
                 list_update (backbuffers sc) (unat (current_backbuffer_index sc))
                   (SetMultiThreading bb)\<rparr>)"
  from Cons.prems ha at obtain y where l: "PresentAll_loop rest ?h1 = Some (h', y)"
    by (auto simp: Let_def split: option.splits)
  from loop_step_heap [OF r] Cons.IH [OF l] show ?case by (rule same_but_flags_trans)
qed

lemma PresentAll_same:
  assumes "PresentAll env shared_fence g = Some (g', log)"
  shows "same_but_flags (heap g) (heap g')"
proof (cases "to_be_present g = []")
  case True
  with assms show ?thesis by (simp add: PresentAll_def same_but_flags_refl)
next
  case False
  with assms obtain h' x where l: "PresentAll_loop (to_be_present g) (heap g) = Some (h', x)"
    and h: "heap g' = h'"
    by (auto simp: PresentAll_def Let_def split: if_splits option.splits)
  from PresentAll_loop_same [OF l] h show ?thesis by simp
qed

lemma unflag_inv:
  assumes "unflag sc' = unflag sc"
  shows "swapchain_inv sc' = swapchain_inv sc \<and> valid sc' = valid sc"
proof -
  from assms have f: "valid sc' = valid sc" "images sc' = images sc" "surfaces sc' = surfaces sc"
    "current_image_index sc' = current_image_index sc"
    "current_backbuffer_index sc' = current_backbuffer_index sc"
    and m: "map UnsetMultiThreading (backbuffers sc') = map UnsetMultiThreading (backbuffers sc)"
    by (auto simp: unflag_def dest: arg_cong [where f = valid]
        arg_cong [where f = images] arg_cong [where f = surfaces]
        arg_cong [where f = current_image_index]
        arg_cong [where f = current_backbuffer_index] arg_cong [where f = backbuffers])
  from m have "length (backbuffers sc') = length (backbuffers sc)" by (metis length_map)
  with f show ?thesis by (simp add: swapchain_inv_def IsValid_def)
qed

lemma same_but_flags_inv:
  assumes "same_but_flags h h'" and "h' a = Some sc'"
  shows "\<exists>sc. h a = Some sc \<and> swapchain_inv sc' = swapchain_inv sc \<and> valid sc' = valid sc"
proof -
  from assms(1) have "map_option unflag (h' a) = map_option unflag (h a)"
    by (simp add: same_but_flags_def)
  with assms(2) obtain sc where "h a = Some sc" "unflag sc' = unflag sc"
    by (cases "h a") auto
  with unflag_inv show ?thesis by blast
qed

lemma PresentAll_keeps_validity:
  assumes "PresentAll env shared_fence g = Some (g', log)" and "heap g a = Some s"
  shows "\<exists>s'. heap g' a = Some s' \<and> IsValid s' = IsValid s"
proof -
  from PresentAll_same [OF assms(1)] have "same_but_flags (heap g') (heap g)"
    by (rule same_but_flags_sym)
  from same_but_flags_inv [OF this assms(2)] show ?thesis by (auto simp: IsValid_def)
qed

lemma PresentAll_never_guarded:
  "PresentAll env shared_fence g = Some (g', log) \<Longrightarrow> \<not> guarded False log"
  by (auto simp: PresentAll_def Let_def split: if_splits option.splits)

lemmas example_process_defs = example_process_def PresentAll_def registered_def slot_of_def
  chain_of_def flagged_def

lemma loop_frame:
  assumes "CreateSwapchainImages_loop env ctx sz ct cs imgs s = (ok, s')"
  shows "valid s' = valid s \<and> current_image_index s' = current_image_index s \<and>
         current_backbuffer_index s' = current_backbuffer_index s \<and>
         (ok \<longrightarrow> length (backbuffers s') = length (backbuffers s) + length imgs \<and>
                 length (images s') = length (images s) + length imgs \<and>
                 length (surfaces s') = length (surfaces s) + length imgs \<and>
                 (list_all (\<lambda>p. p \<noteq> None) (surfaces s) \<longrightarrow>
                    list_all (\<lambda>p. p \<noteq> None) (surfaces s')))"
  using assms
proof (induction imgs arbitrary: s)
  case Nil
  then show ?case by auto
next
  case (Cons i imgs)
  show ?case
  proof (cases "bb_valid (new_VulkanBackbuffer env (length (backbuffers s))) \<and>
                VulkanImage_IsValid env i \<and> CreateSkiaSurface env ctx i sz ct cs \<noteq> None")
    case False
    with Cons.prems show ?thesis by (auto simp: Let_def split: if_splits)
  next
    case True
    let ?s1 = "s\<lparr>backbuffers := backbuffers s @ [new_VulkanBackbuffer env (length (backbuffers s))],
                 images := images s @ [\<lparr>image_handle = i, image_valid = VulkanImage_IsValid env i\<rparr>],
                 surfaces := surfaces s @ [CreateSkiaSurface env ctx i sz ct cs]\<rparr>"
    from True Cons.prems have "CreateSwapchainImages_loop env ctx sz ct cs imgs ?s1 = (ok, s')"
      by (auto simp add: Let_def)
    from Cons.IH [OF this] True show ?thesis by auto
  qed
qed

lemma GetImages_length: "length (GetImages env) < 2 ^ 32"
proof -
  have "unat (snd (GetSwapchainImagesKHR_count env)) < 2 ^ 32"
    using unsigned_less [of "snd (GetSwapchainImagesKHR_count env)", where ?'a = nat] by simp
  then show ?thesis by (simp add: GetImages_def Let_def)
qed

lemma CreateSwapchainImages_inv:
  assumes "CreateSwapchainImages env ctx ct cs s = (ok, s')"
    and "backbuffers s = []" "images s = []" "surfaces s = []"
  shows "valid s' = valid s \<and> current_image_index s' = current_image_index s \<and>
         current_backbuffer_index s' = current_backbuffer_index s \<and>
         (ok \<longrightarrow> length (backbuffers s') = length (images s') \<and>
                 length (images s') = length (surfaces s') \<and>
                 0 < length (backbuffers s') \<and> length (backbuffers s') < 2 ^ 64 \<and>
                 list_all (\<lambda>p. p \<noteq> None) (surfaces s'))"
proof (cases "length (GetImages env) = 0")
  case True
  with assms(1) show ?thesis by (simp add: CreateSwapchainImages_def Let_def)
next
  case False
  with assms(1) have
    "CreateSwapchainImages_loop env ctx (GetSize s) ct cs (GetImages env) s = (ok, s')"
    by (simp add: CreateSwapchainImages_def Let_def)
  from loop_frame [OF this] assms(2-4) False GetImages_length [of env]
  show ?thesis by auto
qed

lemma CreateSwapchainImages_valid:
  assumes "CreateSwapchainImages env ctx ct cs s = (ok, s')"
  shows "valid s' = valid s"
proof (cases "length (GetImages env) = 0")
  case True
  with assms show ?thesis by (simp add: CreateSwapchainImages_def Let_def)
next
  case False
  with assms have
    "CreateSwapchainImages_loop env ctx (GetSize s) ct cs (GetImages env) s = (ok, s')"
    by (simp add: CreateSwapchainImages_def Let_def)
  from loop_frame [OF this] show ?thesis by simp
qed

lemma ctor_inv:
  assumes "VulkanSwapchain_ctor env p_vk dev ctx old = Some (s, log)"
  shows "swapchain_inv s"
proof (cases "valid s")
  case False
  then show ?thesis by (simp add: swapchain_inv_def IsValid_def)
next
  case True
  let ?fs = "map (\<lambda>fi. if colorTypeSupportedAsSurface env (color_type fi)
                      then FormatInfo.format fi else VK_FORMAT_UNDEFINED) DesiredFormatInfos"
  let ?s3 = "(initial_swapchain p_vk dev)\<lparr>capabilities := snd (GetSurfaceCapabilities env),
         surface_format := snd (ChooseSurfaceFormat env ?fs),
         swapchain := snd (CreateSwapchainKHR env)\<rparr>"
  have iv: "\<not> valid (initial_swapchain p_vk dev)" by (simp add: initial_swapchain_def)
  let ?fi = "the (at DesiredFormatInfos (scast (fst (ChooseSurfaceFormat env ?fs))))"
  let ?c = "CreateSwapchainImages env ctx (color_type ?fi) (color_space ?fi) ?s3"
  from assms True iv have "fst ?c \<and> s = (snd ?c)\<lparr>valid := True\<rparr>"
    by (auto simp: VulkanSwapchain_ctor_def Let_def
             split: if_splits option.splits prod.splits
             dest: CreateSwapchainImages_valid)
  then have c: "?c = (True, snd ?c)" and s: "s = (snd ?c)\<lparr>valid := True\<rparr>"
    by (simp_all add: prod_eq_iff)
  have e: "backbuffers ?s3 = []" "images ?s3 = []" "surfaces ?s3 = []"
    and z: "current_image_index ?s3 = 0" "current_backbuffer_index ?s3 = 0"
    by (simp_all add: initial_swapchain_def)
  from CreateSwapchainImages_inv [OF c e] z have
    "current_image_index (snd ?c) = 0" "current_backbuffer_index (snd ?c) = 0"
    "length (backbuffers (snd ?c)) = length (images (snd ?c))"
    "length (images (snd ?c)) = length (surfaces (snd ?c))"
    "0 < length (backbuffers (snd ?c))" "length (backbuffers (snd ?c)) < 2 ^ 64"
    "list_all (\<lambda>p. p \<noteq> None) (surfaces (snd ?c))"
    by auto
  then show ?thesis unfolding s by (simp add: swapchain_inv_def)
qed

lemma ctor_log:
  assumes "VulkanSwapchain_ctor cenv p_vk dev ctx old = Some (s, log)"
    and "device_IsValid cenv" "surface_IsValid cenv" "ctx \<noteq> None"
    and "fst (GetSurfaceCapabilities cenv)"
  shows "filter choose_event log =
           [EvChooseSurfaceFormat
              (map (\<lambda>fi. if colorTypeSupportedAsSurface cenv (color_type fi)
                         then FormatInfo.format fi else VK_FORMAT_UNDEFINED)
                 DesiredFormatInfos)]"
  using assms
  by (auto simp: VulkanSwapchain_ctor_def Let_def
           split: if_splits option.splits prod.splits)

lemma ctor_no_choice:
  assumes "device_IsValid cenv" "surface_IsValid cenv" "ctx \<noteq> None"
    and "fst (GetSurfaceCapabilities cenv)"
    and "fst (ChooseSurfaceFormat cenv
           (map (\<lambda>fi. if colorTypeSupportedAsSurface cenv (color_type fi)
                      then FormatInfo.format fi else VK_FORMAT_UNDEFINED)
              DesiredFormatInfos)) <s 0"
  shows "\<exists>s. VulkanSwapchain_ctor cenv p_vk dev ctx old =
           Some (s, [EvChooseSurfaceFormat
              (map (\<lambda>fi. if colorTypeSupportedAsSurface cenv (color_type fi)
                         then FormatInfo.format fi else VK_FORMAT_UNDEFINED)
                 DesiredFormatInfos)]) \<and> \<not> IsValid s"
  using assms
  by (simp add: VulkanSwapchain_ctor_def Let_def IsValid_def initial_swapchain_def)

lemma invalid_is_inert:
  assumes "\<not> IsValid s"
  shows "AcquireSurface env s = Some ((ErrorSurfaceLost, None), s, []) \<and>
         Submit env s = Some (False, s, []) \<and>
         FlushCommands env s = Some (False, s, [])"
  using assms by (simp add: AcquireSurface_def Submit_def FlushCommands_def)

lemma AcquireSurface_preserves_inv:
  assumes "swapchain_inv s" and "AcquireSurface env s = Some ((st, surf), s', log)"
  shows "swapchain_inv s'"
  using assms(1)
proof (cases rule: AcquireSurface_cases [where env = env])
  case (step3 bi bb)
  let ?s1 = "s\<lparr>current_backbuffer_index := bi\<rparr>"
  from step3(7) assms(2) have
    r3: "AcquireSurface_from_step3 env ?s1 bi bb (fence_log bb) = Some ((st, surf), s', log)"
    by simp
  from step3_frame [OF r3] have f: "current_backbuffer_index s' = bi" "valid s' = valid s"
    "images s' = images s" "surfaces s' = surfaces s"
    "length (backbuffers s') = length (backbuffers s)" by simp_all
  from step3_status [OF r3] have
    "current_image_index s' = current_image_index s \<or>
     unat (current_image_index s') < length (images s)"
    by (cases "st = Success") auto
  with assms(1) step3(1,8) f show ?thesis
    by (auto simp: swapchain_inv_def IsValid_def)
qed (use assms in \<open>auto simp: swapchain_inv_def IsValid_def\<close>)

lemma Submit_preserves_inv:
  assumes "swapchain_inv s" and "Submit env s = Some (ok, s', log)"
  shows "swapchain_inv s'"
  using assms
  by (auto simp: Submit_def Let_def swapchain_inv_def IsValid_def
           split: option.splits if_splits)

lemma FlushCommands_preserves_inv:
  assumes "swapchain_inv s" and "FlushCommands env s = Some (ok, s', log)"
  shows "swapchain_inv s'"
  using assms
  by (auto simp: FlushCommands_def Let_def swapchain_inv_def IsValid_def
           split: option.splits if_splits)

lemmas example_construct_defs = example_construct_def VulkanSwapchain_ctor_def
  initial_swapchain_def DesiredFormatInfos_def CreateSwapchainImages_def GetImages_def
  CreateSkiaSurface_def GetSize_def SkISize_Make_def word_sless_alt

lemma ex_ctor_valid:
  "\<exists>s log. VulkanSwapchain_ctor example_construct 1 2 (Some 3) None = Some (s, log) \<and>
     IsValid s \<and> length (backbuffers s) = 3 \<and> length (images s) = 3 \<and> length (surfaces s) = 3"
  by (simp add: example_construct_defs example_defs upt_rec)

subsection \<open>The registry after PresentAll\<close>

text \<open>
  Claim C1 says that the registry is empty after every \<^verbatim>\<open>PresentAll\<close> on a registry that
  is not empty, whether or not the submit and the present succeeded. The code returns
  before \<^verbatim>\<open>to_be_present_.clear()\<close> when \<^verbatim>\<open>QueueSubmit\<close> fails and when
  \<^verbatim>\<open>vkQueuePresentKHR\<close> fails: with two registered chains, both entries are still in the
  registry after a failed submit and after a failed present, and the registry is empty
  only after the run in which both succeed.
\<close>

theorem PresentAll_failure_keeps_registry:
  "map_option (to_be_present \<circ> fst)
     (PresentAll (all_ok\<lparr>QueueSubmit_ok := False\<rparr>) 99 example_process)
     = Some [(100, 500), (101, 501)] \<and>
   map_option (to_be_present \<circ> fst)
     (PresentAll (all_ok\<lparr>QueuePresentKHR_result := VK_ERROR_OUT_OF_DATE_KHR\<rparr>) 99
        example_process)
     = Some [(100, 500), (101, 501)] \<and>
   map_option (to_be_present \<circ> fst) (PresentAll all_ok 99 example_process) = Some []"
  by (simp add: example_process_defs example_defs)

subsection \<open>The registry mutex\<close>

text \<open>
  Claim C2 says that every access to the registry, the first test for emptiness of
  \<^verbatim>\<open>PresentAll\<close> included, happens while \<^verbatim>\<open>map_mutex_\<close> is held. The code calls
  \<^verbatim>\<open>to_be_present_.empty()\<close> before it constructs the \<^verbatim>\<open>std::lock_guard\<close>: the log of
  a run starts with the read of the registry and locks afterwards, so it is not guarded,
  neither with two registered chains nor with an empty registry, while the log of
  \<^verbatim>\<open>AddToPresent\<close> is.
\<close>

theorem PresentAll_reads_registry_unlocked:
  "map_option snd (PresentAll all_ok 99 example_process) =
     Some [EvRegistry RegEmpty, EvMutexLock,
           EvRegistry RegSize, EvRegistry RegSize, EvRegistry RegSize, EvRegistry RegSize,
           EvRegistry RegIterate, EvSetMultiThreading 500 0,
           EvRegistry RegIterate, EvSetMultiThreading 501 1,
           EvQueueSubmit 2 [] [] [14, 24] [16, 26] 99,
           EvQueuePresentKHR 2 [14, 24] [7, 8] [0, 1],
           EvRegistry RegClear, EvMutexUnlock] \<and>
   map_option (guarded False \<circ> snd) (PresentAll all_ok 99 example_process) = Some False \<and>
   map_option (guarded False \<circ> snd)
     (PresentAll all_ok 99 (example_process\<lparr>to_be_present := []\<rparr>)) = Some False \<and>
   guarded False (snd (AddToPresent 500 100 example_process))"
  by (simp add: example_process_defs example_defs AddToPresent_def)

subsection \<open>Rotation of the backbuffer cursor\<close>

text \<open>
  Claim C3. For a valid swapchain (one that satisfies the invariant) whose next rotation
  slot holds a valid backbuffer, \<^verbatim>\<open>AcquireSurface\<close> returns, and afterwards
  \<^verbatim>\<open>current_backbuffer_index_\<close> is the previous value plus one modulo the number \<open>N\<close> of
  backbuffers, whatever the outcomes of the outside calls are: whichever image index the
  platform returns and whichever later step fails.
\<close>

theorem AcquireSurface_rotates_backbuffer:
  assumes "IsValid s" and "swapchain_inv s"
    and "bb_valid (backbuffers s !
           ((unat (current_backbuffer_index s) + 1) mod length (backbuffers s)))"
  shows "\<exists>r s' log. AcquireSurface env s = Some (r, s', log) \<and>
           length (backbuffers s') = length (backbuffers s) \<and>
           unat (current_backbuffer_index s') =
             (unat (current_backbuffer_index s) + 1) mod length (backbuffers s)"
  using assms(2)
proof (cases rule: AcquireSurface_cases [where env = env])
  case invalid
  with assms(1) show ?thesis by simp
next
  case (no_slot bi)
  with assms(3) show ?thesis by simp
next
  case (wait_failed bi bb)
  then show ?thesis by simp
next
  case (reset_failed bi bb)
  then show ?thesis by simp
next
  case (step3 bi bb)
  let ?s1 = "s\<lparr>current_backbuffer_index := bi\<rparr>"
  from assms(1,2) have "length (images ?s1) = length (surfaces ?s1)"
    by (simp add: swapchain_inv_def)
  from step3_total [OF this] obtain r s' log where
    r: "AcquireSurface_from_step3 env ?s1 bi bb (fence_log bb) = Some (r, s', log)"
    by blast
  from step3_frame [OF r] step3 r show ?thesis by simp
qed

theorem AcquireSurface_rotates_backbuffer_witness:
  "IsValid example_swapchain \<and> swapchain_inv example_swapchain \<and>
   bb_valid (backbuffers example_swapchain !
     ((unat (current_backbuffer_index example_swapchain) + 1)
        mod length (backbuffers example_swapchain))) \<and>
   (\<exists>r s' log. AcquireSurface all_ok example_swapchain = Some (r, s', log) \<and>
      length (backbuffers s') = length (backbuffers example_swapchain) \<and>
      unat (current_backbuffer_index s') =
        (unat (current_backbuffer_index example_swapchain) + 1)
          mod length (backbuffers example_swapchain))"
proof -
  have h1: "IsValid example_swapchain" and h2: "swapchain_inv example_swapchain"
    using example_swapchain_inv by simp_all
  have h3: "bb_valid (backbuffers example_swapchain !
     ((unat (current_backbuffer_index example_swapchain) + 1)
        mod length (backbuffers example_swapchain)))"
    by (simp add: example_swapchain_def example_backbuffer_def)
  from h1 h2 h3 AcquireSurface_rotates_backbuffer [OF h1 h2 h3, of all_ok]
  show ?thesis by blast
qed

subsection \<open>What a failed acquire leaves untouched\<close>

text \<open>
  Claim C4. \<^verbatim>\<open>AcquireSurface\<close> returns; unless the status is \<open>Success\<close> the surface is
  null and \<^verbatim>\<open>current_image_index_\<close> is unchanged, and with \<open>Success\<close> the surface is not
  null. When the platform was asked for an image and reported out-of-date, the result
  is \<open>ErrorSurfaceOutOfDate\<close> with a null surface, and the state differs from the one
  before at most in the backbuffer cursor: image index and pipeline stage are unchanged.
  Any answer of the platform other than success and out-of-date (surface-lost or any
  other code) is reported as \<open>ErrorSurfaceLost\<close>.
\<close>

theorem AcquireSurface_status:
  assumes "swapchain_inv s"
  shows "\<exists>st surf s' log. AcquireSurface env s = Some ((st, surf), s', log) \<and>
    (st \<noteq> Success \<longrightarrow> surf = None \<and> current_image_index s' = current_image_index s) \<and>
    (st = Success \<longrightarrow> surf \<noteq> None \<and>
       current_image_index s' = ucast (AcquireNextImageKHR_index env)) \<and>
    (list_ex acquire_event log \<and> AcquireNextImageKHR_result env = VK_ERROR_OUT_OF_DATE_KHR \<longrightarrow>
       st = ErrorSurfaceOutOfDate \<and> surf = None \<and>
       current_image_index s' = current_image_index s \<and>
       current_pipeline_stage s' = current_pipeline_stage s \<and>
       s' = s\<lparr>current_backbuffer_index := current_backbuffer_index s'\<rparr>) \<and>
    (list_ex acquire_event log \<and> AcquireNextImageKHR_result env \<noteq> VK_SUCCESS \<and>
       AcquireNextImageKHR_result env \<noteq> VK_ERROR_OUT_OF_DATE_KHR \<longrightarrow>
       st = ErrorSurfaceLost \<and> surf = None)"
proof -
  from AcquireSurface_total [OF assms] obtain st surf s' log where
    r: "AcquireSurface env s = Some ((st, surf), s', log)" by blast
  from assms have "(st \<noteq> Success \<longrightarrow> surf = None \<and> current_image_index s' = current_image_index s) \<and>
    (st = Success \<longrightarrow> surf \<noteq> None \<and>
       current_image_index s' = ucast (AcquireNextImageKHR_index env)) \<and>
    (list_ex acquire_event log \<and> AcquireNextImageKHR_result env = VK_ERROR_OUT_OF_DATE_KHR \<longrightarrow>
       st = ErrorSurfaceOutOfDate \<and> surf = None \<and>
       current_image_index s' = current_image_index s \<and>
       current_pipeline_stage s' = current_pipeline_stage s \<and>
       s' = s\<lparr>current_backbuffer_index := current_backbuffer_index s'\<rparr>) \<and>
    (list_ex acquire_event log \<and> AcquireNextImageKHR_result env \<noteq> VK_SUCCESS \<and>
       AcquireNextImageKHR_result env \<noteq> VK_ERROR_OUT_OF_DATE_KHR \<longrightarrow>
       st = ErrorSurfaceLost \<and> surf = None)"
  proof (cases rule: AcquireSurface_cases [where env = env])
    case (step3 bi bb)
    let ?s1 = "s\<lparr>current_backbuffer_index := bi\<rparr>"
    from step3(7) r have
      r3: "AcquireSurface_from_step3 env ?s1 bi bb (fence_log bb) = Some ((st, surf), s', log)"
      by simp
    from step3_status [OF r3] step3_platform_error [OF r3] show ?thesis
      by (cases "AcquireNextImageKHR_result env = VK_SUCCESS") auto
  qed (use r in auto)
  with r show ?thesis by blast
qed

theorem AcquireSurface_status_witness:
  "swapchain_inv example_swapchain \<and>
   (\<exists>st surf s' log.
      AcquireSurface (all_ok\<lparr>AcquireNextImageKHR_result := VK_ERROR_OUT_OF_DATE_KHR\<rparr>)
        example_swapchain = Some ((st, surf), s', log) \<and>
      list_ex acquire_event log \<and>
      st = ErrorSurfaceOutOfDate \<and> surf = None \<and>
      current_image_index s' = current_image_index example_swapchain \<and>
      current_pipeline_stage s' = current_pipeline_stage example_swapchain)"
proof -
  let ?env = "all_ok\<lparr>AcquireNextImageKHR_result := VK_ERROR_OUT_OF_DATE_KHR\<rparr>"
  have h: "swapchain_inv example_swapchain" using example_swapchain_inv by simp
  from AcquireSurface_status [OF h, of ?env] obtain st surf s' log where
    r: "AcquireSurface ?env example_swapchain = Some ((st, surf), s', log)" and
    c: "list_ex acquire_event log \<and>
          AcquireNextImageKHR_result ?env = VK_ERROR_OUT_OF_DATE_KHR \<longrightarrow>
        st = ErrorSurfaceOutOfDate \<and> surf = None \<and>
        current_image_index s' = current_image_index example_swapchain \<and>
        current_pipeline_stage s' = current_pipeline_stage example_swapchain \<and>
        s' = example_swapchain\<lparr>current_backbuffer_index := current_backbuffer_index s'\<rparr>"
    by blast
  from r have l: "list_ex acquire_event log" by (auto simp add: example_defs)
  have "AcquireNextImageKHR_result ?env = VK_ERROR_OUT_OF_DATE_KHR" by simp
  with h r c l show ?thesis by blast
qed

subsection \<open>The pipeline stage and the image memory barrier\<close>

text \<open>
  Claim C5. Each of \<^verbatim>\<open>AcquireSurface\<close>, \<^verbatim>\<open>Submit\<close> and \<^verbatim>\<open>FlushCommands\<close> returns, and
  if it called \<^verbatim>\<open>InsertImageMemoryBarrier\<close> and the call failed, then
  \<^verbatim>\<open>current_pipeline_stage_\<close> is what it was before the call and the operation reports
  failure (\<open>ErrorSurfaceLost\<close> with a null surface, or \<open>False\<close>). The stage is different
  after the operation only if the barrier was inserted with success, and it is then the
  destination stage of the barrier.
\<close>

theorem barrier_failure_keeps_stage:
  assumes "swapchain_inv s"
  shows
   "(\<exists>st surf s' log. AcquireSurface env s = Some ((st, surf), s', log) \<and>
       (list_ex barrier_event log \<and> \<not> InsertImageMemoryBarrier_ok env \<longrightarrow>
          current_pipeline_stage s' = current_pipeline_stage s \<and>
          st = ErrorSurfaceLost \<and> surf = None) \<and>
       (current_pipeline_stage s' \<noteq> current_pipeline_stage s \<longrightarrow>
          list_ex barrier_event log \<and> InsertImageMemoryBarrier_ok env \<and>
          current_pipeline_stage s' = VK_PIPELINE_STAGE_COLOR_ATTACHMENT_OUTPUT_BIT)) \<and>
    (\<exists>ok s' log. Submit env s = Some (ok, s', log) \<and>
       (list_ex barrier_event log \<and> \<not> InsertImageMemoryBarrier_ok env \<longrightarrow>
          current_pipeline_stage s' = current_pipeline_stage s \<and> \<not> ok) \<and>
       (current_pipeline_stage s' \<noteq> current_pipeline_stage s \<longrightarrow>
          list_ex barrier_event log \<and> InsertImageMemoryBarrier_ok env \<and>
          current_pipeline_stage s' = VK_PIPELINE_STAGE_BOTTOM_OF_PIPE_BIT)) \<and>
    (\<exists>ok s' log. FlushCommands env s = Some (ok, s', log) \<and>
       (list_ex barrier_event log \<and> \<not> InsertImageMemoryBarrier_ok env \<longrightarrow>
          current_pipeline_stage s' = current_pipeline_stage s \<and> \<not> ok) \<and>
       (current_pipeline_stage s' \<noteq> current_pipeline_stage s \<longrightarrow>
          list_ex barrier_event log \<and> InsertImageMemoryBarrier_ok env \<and>
          current_pipeline_stage s' = VK_PIPELINE_STAGE_BOTTOM_OF_PIPE_BIT))"
proof (intro conjI)
  from AcquireSurface_stage [OF assms, of env]
  show "\<exists>st surf s' log. AcquireSurface env s = Some ((st, surf), s', log) \<and>
       (list_ex barrier_event log \<and> \<not> InsertImageMemoryBarrier_ok env \<longrightarrow>
          current_pipeline_stage s' = current_pipeline_stage s \<and>
          st = ErrorSurfaceLost \<and> surf = None) \<and>
       (current_pipeline_stage s' \<noteq> current_pipeline_stage s \<longrightarrow>
          list_ex barrier_event log \<and> InsertImageMemoryBarrier_ok env \<and>
          current_pipeline_stage s' = VK_PIPELINE_STAGE_COLOR_ATTACHMENT_OUTPUT_BIT)"
    by blast
next
  from Submit_total [OF assms, of env] obtain ok s' log where
    r: "Submit env s = Some (ok, s', log)" by blast
  from Submit_stage [OF r] r
  show "\<exists>ok s' log. Submit env s = Some (ok, s', log) \<and>
       (list_ex barrier_event log \<and> \<not> InsertImageMemoryBarrier_ok env \<longrightarrow>
          current_pipeline_stage s' = current_pipeline_stage s \<and> \<not> ok) \<and>
       (current_pipeline_stage s' \<noteq> current_pipeline_stage s \<longrightarrow>
          list_ex barrier_event log \<and> InsertImageMemoryBarrier_ok env \<and>
          current_pipeline_stage s' = VK_PIPELINE_STAGE_BOTTOM_OF_PIPE_BIT)"
    by blast
next
  from FlushCommands_total [OF assms, of env] obtain ok s' log where
    r: "FlushCommands env s = Some (ok, s', log)" by blast
  from FlushCommands_stage [OF r] r
  show "\<exists>ok s' log. FlushCommands env s = Some (ok, s', log) \<and>
       (list_ex barrier_event log \<and> \<not> InsertImageMemoryBarrier_ok env \<longrightarrow>
          current_pipeline_stage s' = current_pipeline_stage s \<and> \<not> ok) \<and>
       (current_pipeline_stage s' \<noteq> current_pipeline_stage s \<longrightarrow>
          list_ex barrier_event log \<and> InsertImageMemoryBarrier_ok env \<and>
          current_pipeline_stage s' = VK_PIPELINE_STAGE_BOTTOM_OF_PIPE_BIT)"
    by blast
qed

theorem barrier_failure_keeps_stage_witness:
  "swapchain_inv example_swapchain \<and>
   (\<exists>ok s' log.
      Submit (all_ok\<lparr>InsertImageMemoryBarrier_ok := False\<rparr>) example_swapchain =
        Some (ok, s', log) \<and>
      list_ex barrier_event log \<and>
      current_pipeline_stage s' = current_pipeline_stage example_swapchain \<and> \<not> ok)"
proof -
  let ?env = "all_ok\<lparr>InsertImageMemoryBarrier_ok := False\<rparr>"
  have h: "swapchain_inv example_swapchain" using example_swapchain_inv by simp
  from barrier_failure_keeps_stage [OF h, of ?env] obtain ok s' log where
    r: "Submit ?env example_swapchain = Some (ok, s', log)" and
    c: "list_ex barrier_event log \<and> \<not> InsertImageMemoryBarrier_ok ?env \<longrightarrow>
          current_pipeline_stage s' = current_pipeline_stage example_swapchain \<and> \<not> ok"
    by blast
  from r have l: "list_ex barrier_event log"
    by (auto simp add: Submit_def example_defs)
  have "\<not> InsertImageMemoryBarrier_ok ?env" by simp
  with h r c l show ?thesis by blast
qed

subsection \<open>One submit and one present for all registered chains\<close>

text \<open>
  Claim C6. Let the registry hold \<open>N \<ge> 1\<close> entries, each pointing to a live swapchain
  whose backbuffer cursor is in range. Then \<^verbatim>\<open>PresentAll\<close> returns, and its log holds
  exactly one queue submit: on the device of the first chain, with no wait stages and no
  wait semaphores, signalling the render semaphores of the \<open>N\<close> current backbuffers in the
  order of the registry, with their \<open>N\<close> render command buffers and the shared fence that
  was passed in. If the submit succeeds the log holds exactly one present, waiting on the
  same \<open>N\<close> semaphores, for the \<open>N\<close> native chains and their current image indices; if it
  fails there is no present. Every contributing backbuffer is marked as batched in the
  part of the log before the submit, and is flagged in the heap that is returned.
\<close>

theorem PresentAll_one_submit_one_present:
  assumes "to_be_present g \<noteq> []"
    and "\<forall>e\<in>set (to_be_present g). registered (heap g) (snd e) \<noteq> None"
  shows "\<exists>g' log pre post.
    PresentAll env shared_fence g = Some (g', log) \<and>
    filter submit_event log =
      [EvQueueSubmit (device (chain_of (heap g) (hd (to_be_present g)))) [] []
         (map (\<lambda>e. render_semaphore (slot_of (heap g) e)) (to_be_present g))
         (map (\<lambda>e. render_command_buffer (slot_of (heap g) e)) (to_be_present g))
         shared_fence] \<and>
    filter present_event log =
      (if QueueSubmit_ok env
       then [EvQueuePresentKHR (device (chain_of (heap g) (hd (to_be_present g))))
               (map (\<lambda>e. render_semaphore (slot_of (heap g) e)) (to_be_present g))
               (map (\<lambda>e. swapchain (chain_of (heap g) e)) (to_be_present g))
               (map (\<lambda>e. ucast (current_image_index (chain_of (heap g) e))) (to_be_present g))]
       else []) \<and>
    log = pre @ filter submit_event log @ post \<and>
    (\<forall>e\<in>set (to_be_present g).
       EvSetMultiThreading (snd e) (current_backbuffer_index (chain_of (heap g) e)) \<in> set pre) \<and>
    (\<forall>e\<in>set (to_be_present g). flagged (heap g') (snd e))"
proof -
  let ?reg = "to_be_present g"
  let ?h = "heap g"
  let ?sems = "map (\<lambda>e. render_semaphore (slot_of ?h e)) ?reg"
  let ?cbs = "map (\<lambda>e. render_command_buffer (slot_of ?h e)) ?reg"
  let ?scs = "map (\<lambda>e. swapchain (chain_of ?h e)) ?reg"
  let ?idx = "map (\<lambda>e. ucast (current_image_index (chain_of ?h e)) :: uint32_t) ?reg"
  let ?evs = "concat (map (\<lambda>e. [EvRegistry RegIterate,
                 EvSetMultiThreading (snd e) (current_backbuffer_index (chain_of ?h e))]) ?reg)"
  let ?dev = "device (chain_of ?h (hd ?reg))"
  let ?sub = "EvQueueSubmit ?dev [] [] ?sems ?cbs shared_fence"
  let ?pre = "[EvRegistry RegEmpty, EvMutexLock, EvRegistry RegSize, EvRegistry RegSize,
               EvRegistry RegSize, EvRegistry RegSize] @ ?evs"
  from PresentAll_loop_result [OF assms(2)] obtain h' where
    l: "PresentAll_loop ?reg ?h = Some (h', ?sems, ?cbs, ?scs, ?idx, ?evs)"
    and s: "same_but_flags ?h h'" by blast
  from assms have hd: "hd ?reg \<in> set ?reg" "registered ?h (snd (hd ?reg)) \<noteq> None" by simp_all
  from same_but_flags_proj [OF s hd(2)] obtain tmp where
    tmp: "h' (snd (hd ?reg)) = Some tmp" and dev: "device tmp = ?dev"
    by (auto simp: chain_of_def registered_def split: option.splits)
  from PresentAll_loop_flags [OF l] have fl: "\<forall>e\<in>set ?reg. flagged h' (snd e)" by blast
  have marks: "\<forall>e\<in>set ?reg.
       EvSetMultiThreading (snd e) (current_backbuffer_index (chain_of ?h e)) \<in> set ?pre"
    using loop_events_marks [where f = snd and g = "\<lambda>e. current_backbuffer_index (chain_of ?h e)"]
    by simp
  note nc = loop_events_no_call [where f = snd
      and g = "\<lambda>e. current_backbuffer_index (chain_of ?h e)" and reg = ?reg]
  consider (a) "\<not> QueueSubmit_ok env"
    | (b) "QueueSubmit_ok env" "QueuePresentKHR_result env \<noteq> VK_SUCCESS"
    | (c) "QueueSubmit_ok env" "QueuePresentKHR_result env = VK_SUCCESS" by blast
  then show ?thesis
  proof cases
    case a
    let ?log = "?pre @ [?sub] @ [EvMutexUnlock]"
    have r: "PresentAll env shared_fence g = Some (g\<lparr>heap := h'\<rparr>, ?log)"
      using assms(1) l tmp dev a by (simp add: PresentAll_def Let_def)
    have f1: "filter submit_event ?log = [?sub]" using nc by simp
    have f2: "filter present_event ?log = []" using nc by simp
    have "?log = ?pre @ filter submit_event ?log @ [EvMutexUnlock]" by (simp only: f1)
    with r f1 f2 marks fl a show ?thesis
      by (intro exI [where x = "g\<lparr>heap := h'\<rparr>"] exI [where x = ?log]
            exI [where x = ?pre] exI [where x = "[EvMutexUnlock]"]) simp
  next
    case b
    let ?post = "[EvQueuePresentKHR ?dev ?sems ?scs ?idx, EvMutexUnlock]"
    let ?log = "?pre @ [?sub] @ ?post"
    have r: "PresentAll env shared_fence g = Some (g\<lparr>heap := h'\<rparr>, ?log)"
      using assms(1) l tmp dev b by (simp add: PresentAll_def Let_def)
    have f1: "filter submit_event ?log = [?sub]" using nc by simp
    have f2: "filter present_event ?log = [EvQueuePresentKHR ?dev ?sems ?scs ?idx]"
      using nc by simp
    have "?log = ?pre @ filter submit_event ?log @ ?post" by (simp only: f1)
    with r f1 f2 marks fl b show ?thesis
      by (intro exI [where x = "g\<lparr>heap := h'\<rparr>"] exI [where x = ?log]
            exI [where x = ?pre] exI [where x = ?post]) simp
  next
    case c
    let ?post = "[EvQueuePresentKHR ?dev ?sems ?scs ?idx, EvRegistry RegClear, EvMutexUnlock]"
    let ?log = "?pre @ [?sub] @ ?post"
    have r: "PresentAll env shared_fence g = Some (g\<lparr>heap := h', to_be_present := []\<rparr>, ?log)"
      using assms(1) l tmp dev c by (simp add: PresentAll_def Let_def)
    have f1: "filter submit_event ?log = [?sub]" using nc by simp
    have f2: "filter present_event ?log = [EvQueuePresentKHR ?dev ?sems ?scs ?idx]"
      using nc by simp
    have "?log = ?pre @ filter submit_event ?log @ ?post" by (simp only: f1)
    with r f1 f2 marks fl c show ?thesis
      by (intro exI [where x = "g\<lparr>heap := h', to_be_present := []\<rparr>"] exI [where x = ?log]
            exI [where x = ?pre] exI [where x = ?post]) simp
  qed
qed

theorem PresentAll_one_submit_one_present_witness:
  "to_be_present example_process \<noteq> [] \<and>
   to_be_present example_process = [(100, 500), (101, 501)] \<and>
   registered (heap example_process) 500 \<noteq> None \<and>
   registered (heap example_process) 501 \<noteq> None \<and>
   (\<exists>g' log. PresentAll all_ok 99 example_process = Some (g', log) \<and>
      filter submit_event log = [EvQueueSubmit 2 [] [] [14, 24] [16, 26] 99] \<and>
      filter present_event log = [EvQueuePresentKHR 2 [14, 24] [7, 8] [0, 1]] \<and>
      flagged (heap g') 500 \<and> flagged (heap g') 501)"
proof -
  have h1: "to_be_present example_process \<noteq> []" by (simp add: example_process_def)
  have h2: "\<forall>e\<in>set (to_be_present example_process).
              registered (heap example_process) (snd e) \<noteq> None"
    by (simp add: example_process_defs example_defs)
  from PresentAll_one_submit_one_present [OF h1 h2, of all_ok 99] obtain g' log where
    r: "PresentAll all_ok 99 example_process = Some (g', log)" and
    a: "filter submit_event log =
      [EvQueueSubmit (device (chain_of (heap example_process) (hd (to_be_present example_process))))
         [] []
         (map (\<lambda>e. render_semaphore (slot_of (heap example_process) e))
            (to_be_present example_process))
         (map (\<lambda>e. render_command_buffer (slot_of (heap example_process) e))
            (to_be_present example_process))
         99]" and
    b: "filter present_event log =
      (if QueueSubmit_ok all_ok
       then [EvQueuePresentKHR
               (device (chain_of (heap example_process) (hd (to_be_present example_process))))
               (map (\<lambda>e. render_semaphore (slot_of (heap example_process) e))
                  (to_be_present example_process))
               (map (\<lambda>e. swapchain (chain_of (heap example_process) e))
                  (to_be_present example_process))
               (map (\<lambda>e. ucast (current_image_index (chain_of (heap example_process) e)))
                  (to_be_present example_process))]
       else [])" and
    c: "\<forall>e\<in>set (to_be_present example_process). flagged (heap g') (snd e)"
    by blast
  from a have a': "filter submit_event log = [EvQueueSubmit 2 [] [] [14, 24] [16, 26] 99]"
    by (simp add: example_process_defs example_defs)
  from b have b': "filter present_event log = [EvQueuePresentKHR 2 [14, 24] [7, 8] [0, 1]]"
    by (simp add: example_process_defs example_defs)
  from c have c': "flagged (heap g') 500 \<and> flagged (heap g') 501"
    by (simp add: example_process_def)
  have h3: "to_be_present example_process = [(100, 500), (101, 501)]"
    by (simp add: example_process_def)
  from h2 have h4: "registered (heap example_process) 500 \<noteq> None"
    and h5: "registered (heap example_process) 501 \<noteq> None"
    by (simp_all add: h3)
  from h1 h3 h4 h5 r a' b' c' show ?thesis by blast
qed

subsection \<open>The batched flag of a backbuffer during an acquire\<close>

text \<open>
  Claim C7, as amended. Let \<^verbatim>\<open>AcquireSurface\<close> on a valid swapchain rotate into the
  backbuffer \<open>bb\<close> at slot \<open>bi\<close>. If \<open>bb\<close> is flagged as batched, the log holds no wait on
  its fences and no reset of them. If it is not flagged, the first call is the wait on
  its fences, and if the platform is asked for an image at all, the wait and the reset
  both succeeded and stand in the log before that request. If the usage submit is made
  and succeeds, the flag of the slot is false afterwards, whatever happens later; in
  every other case, also when the usage submit is made and fails, the slot is exactly as
  it was, flag included.
\<close>

theorem AcquireSurface_batched_flag:
  assumes "IsValid s" and "swapchain_inv s"
    and "GetNextBackbuffer s = Some (Some (bi, bb), s1)"
  shows "\<exists>r s' log. AcquireSurface env s = Some (r, s', log) \<and>
    (IsMultiThreading bb \<longrightarrow> \<not> list_ex fence_event log) \<and>
    (\<not> IsMultiThreading bb \<longrightarrow>
       (\<exists>rest. log = EvWaitFences (usage_fence bb) (render_fence bb) # rest) \<and>
       (list_ex acquire_event log \<longrightarrow>
          WaitFences_ok env \<and> ResetFences_ok env \<and>
          (\<exists>rest. log = EvWaitFences (usage_fence bb) (render_fence bb)
                        # EvResetFences (usage_fence bb) (render_fence bb)
                        # EvAcquireNextImageKHR (swapchain s) (usage_semaphore bb) # rest))) \<and>
    (list_ex submit_event log \<and> QueueSubmit_ok env \<longrightarrow>
       at (backbuffers s') bi = Some (bb\<lparr>multi_threading := False\<rparr>)) \<and>
    (\<not> (list_ex submit_event log \<and> QueueSubmit_ok env) \<longrightarrow>
       at (backbuffers s') bi = Some bb)"
proof -
  from AcquireSurface_total [OF assms(2)] obtain st surf s' log where
    r: "AcquireSurface env s = Some ((st, surf), s', log)" by blast
  from assms(2) have "(IsMultiThreading bb \<longrightarrow> \<not> list_ex fence_event log) \<and>
    (\<not> IsMultiThreading bb \<longrightarrow>
       (\<exists>rest. log = EvWaitFences (usage_fence bb) (render_fence bb) # rest) \<and>
       (list_ex acquire_event log \<longrightarrow>
          WaitFences_ok env \<and> ResetFences_ok env \<and>
          (\<exists>rest. log = EvWaitFences (usage_fence bb) (render_fence bb)
                        # EvResetFences (usage_fence bb) (render_fence bb)
                        # EvAcquireNextImageKHR (swapchain s) (usage_semaphore bb) # rest))) \<and>
    (list_ex submit_event log \<and> QueueSubmit_ok env \<longrightarrow>
       at (backbuffers s') bi = Some (bb\<lparr>multi_threading := False\<rparr>)) \<and>
    (\<not> (list_ex submit_event log \<and> QueueSubmit_ok env) \<longrightarrow>
       at (backbuffers s') bi = Some bb)"
  proof (cases rule: AcquireSurface_cases [where env = env])
    case invalid
    with assms(1) show ?thesis by simp
  next
    case (no_slot bi')
    with assms(3) show ?thesis by simp
  next
    case (wait_failed bi' bb')
    from wait_failed(5) assms(3) have e: "bi' = bi" "bb' = bb" by simp_all
    with wait_failed r e show ?thesis by (auto simp: at_def)
  next
    case (reset_failed bi' bb')
    from reset_failed(5) assms(3) have e: "bi' = bi" "bb' = bb" by simp_all
    with reset_failed r e show ?thesis by (auto simp: at_def)
  next
    case (step3 bi' bb')
    from step3(5) assms(3) have e: "bi' = bi" "bb' = bb" by simp_all
    from step3(8) e have len: "unat bi < length (backbuffers s)" by simp
    let ?s1 = "s\<lparr>current_backbuffer_index := bi\<rparr>"
    from step3(7) r e have
      r3: "AcquireSurface_from_step3 env ?s1 bi bb (fence_log bb) = Some ((st, surf), s', log)"
      by simp
    have nf: "\<not> list_ex submit_event (fence_log bb)" by (simp add: fence_log_def)
    from step3_log [OF r3] obtain rest where
      l: "log = fence_log bb @ EvAcquireNextImageKHR (swapchain s) (usage_semaphore bb) # rest"
      and nr: "\<not> list_ex fence_event rest" by auto
    have fl: "IsMultiThreading bb \<longrightarrow> \<not> list_ex fence_event log"
      using l nr by (simp add: fence_log_def)
    have wr: "\<not> IsMultiThreading bb \<longrightarrow>
        WaitFences_ok env \<and> ResetFences_ok env \<and>
        log = EvWaitFences (usage_fence bb) (render_fence bb)
              # EvResetFences (usage_fence bb) (render_fence bb)
              # EvAcquireNextImageKHR (swapchain s) (usage_semaphore bb) # rest"
      using l step3(6) e by (auto simp add: fence_log_def)
    have bbs: "backbuffers s ! unat bi = bb" using step3(3) e by simp
    from step3_flag [OF r3 nf] have
      "(list_ex submit_event log \<and> QueueSubmit_ok env \<longrightarrow>
          at (backbuffers s') bi = Some (bb\<lparr>multi_threading := False\<rparr>)) \<and>
       (\<not> (list_ex submit_event log \<and> QueueSubmit_ok env) \<longrightarrow>
          at (backbuffers s') bi = Some bb)"
      using len bbs by (auto simp: at_def UnsetMultiThreading_def)
    with fl wr show ?thesis by blast
  qed
  with r show ?thesis by blast
qed

theorem AcquireSurface_batched_flag_witness:
  "IsValid example_swapchain \<and> swapchain_inv example_swapchain \<and>
   GetNextBackbuffer example_swapchain =
     Some (Some (1, example_backbuffer 2 True),
           example_swapchain\<lparr>current_backbuffer_index := 1\<rparr>) \<and>
   IsMultiThreading (example_backbuffer 2 True) \<and>
   (\<exists>r s' log. AcquireSurface all_ok example_swapchain = Some (r, s', log) \<and>
      \<not> list_ex fence_event log \<and> list_ex submit_event log \<and>
      at (backbuffers s') 1 = Some ((example_backbuffer 2 True)\<lparr>multi_threading := False\<rparr>))"
proof -
  have h1: "IsValid example_swapchain" and h2: "swapchain_inv example_swapchain"
    using example_swapchain_inv by simp_all
  have h3: "GetNextBackbuffer example_swapchain =
     Some (Some (1, example_backbuffer 2 True),
           example_swapchain\<lparr>current_backbuffer_index := 1\<rparr>)"
    by (simp add: example_defs)
  have m: "IsMultiThreading (example_backbuffer 2 True)"
    by (simp add: IsMultiThreading_def example_backbuffer_def)
  from AcquireSurface_batched_flag [OF h1 h2 h3, of all_ok] obtain r s' log where
    r: "AcquireSurface all_ok example_swapchain = Some (r, s', log)" and
    a: "IsMultiThreading (example_backbuffer 2 True) \<longrightarrow> \<not> list_ex fence_event log" and
    b: "list_ex submit_event log \<and> QueueSubmit_ok all_ok \<longrightarrow>
          at (backbuffers s') 1 = Some ((example_backbuffer 2 True)\<lparr>multi_threading := False\<rparr>)"
    by blast
  from r have l: "list_ex submit_event log" by (auto simp add: example_defs)
  have "QueueSubmit_ok all_ok" by (simp add: all_ok_def)
  with h1 h2 h3 m r a b l show ?thesis by blast
qed

text \<open>
  The claim as it was stated fails when the usage submit is reached and fails: the
  acquire below rotates into the batched slot 1, logs the usage submit, and returns with
  the slot still flagged.
\<close>

theorem AcquireSurface_batched_flag_counterexample:
  "AcquireSurface (all_ok\<lparr>QueueSubmit_ok := False\<rparr>) example_swapchain =
     Some ((ErrorSurfaceLost, None),
           example_swapchain\<lparr>current_backbuffer_index := 1,
             current_pipeline_stage := VK_PIPELINE_STAGE_COLOR_ATTACHMENT_OUTPUT_BIT\<rparr>,
           [EvAcquireNextImageKHR 7 23, EvBegin 25,
            EvInsertImageMemoryBarrier 32 25 VK_PIPELINE_STAGE_TOP_OF_PIPE_BIT
              VK_PIPELINE_STAGE_COLOR_ATTACHMENT_OUTPUT_BIT
              VK_ACCESS_COLOR_ATTACHMENT_WRITE_BIT VK_IMAGE_LAYOUT_COLOR_ATTACHMENT_OPTIMAL,
            EvEnd 25,
            EvQueueSubmit 2 [VK_PIPELINE_STAGE_COLOR_ATTACHMENT_OUTPUT_BIT] [23] [] [25] 21])
   \<and> IsMultiThreading (backbuffers example_swapchain ! 1)"
  by (simp add: example_defs)

subsection \<open>Choice of the surface format during construction\<close>

text \<open>
  Claim C8. Let the construction get as far as the choice of the format: device and
  surface are valid, the Skia context is not null and the capabilities were found. Then
  the platform is asked exactly once, with a list \<open>fs\<close> of as many candidates as there are
  desired formats, in which candidate \<open>i\<close> is the \<open>i\<close>-th desired format if the backend can
  target its colour type as a surface and \<^verbatim>\<open>VK_FORMAT_UNDEFINED\<close> otherwise. If the
  platform answers with a negative index, the constructor returns right after that
  request with an invalid swapchain, and the swapchain stays invalid: \<^verbatim>\<open>AcquireSurface\<close>,
  \<^verbatim>\<open>Submit\<close> and \<^verbatim>\<open>FlushCommands\<close> fail and leave it as it is, and \<^verbatim>\<open>PresentAll\<close> leaves
  it invalid.
\<close>

theorem ctor_masks_formats:
  assumes "device_IsValid cenv" and "surface_IsValid cenv" and "skia_context \<noteq> None"
    and "fst (GetSurfaceCapabilities cenv)"
  shows "\<exists>fs.
    length fs = length DesiredFormatInfos \<and>
    (\<forall>i<length DesiredFormatInfos.
       fs ! i = (if colorTypeSupportedAsSurface cenv (color_type (DesiredFormatInfos ! i))
                 then FormatInfo.format (DesiredFormatInfos ! i) else VK_FORMAT_UNDEFINED)) \<and>
    (\<forall>s log. VulkanSwapchain_ctor cenv p_vk dev skia_context old = Some (s, log) \<longrightarrow>
       filter choose_event log = [EvChooseSurfaceFormat fs]) \<and>
    (fst (ChooseSurfaceFormat cenv fs) <s 0 \<longrightarrow>
       (\<exists>s. VulkanSwapchain_ctor cenv p_vk dev skia_context old =
               Some (s, [EvChooseSurfaceFormat fs]) \<and>
            \<not> IsValid s \<and>
            (\<forall>env. AcquireSurface env s = Some ((ErrorSurfaceLost, None), s, []) \<and>
                   Submit env s = Some (False, s, []) \<and>
                   FlushCommands env s = Some (False, s, [])) \<and>
            (\<forall>env shared_fence g g' log a.
               PresentAll env shared_fence g = Some (g', log) \<and> heap g a = Some s \<longrightarrow>
               (\<exists>s'. heap g' a = Some s' \<and> \<not> IsValid s'))))"
proof -
  let ?fs = "map (\<lambda>fi. if colorTypeSupportedAsSurface cenv (color_type fi)
                       then FormatInfo.format fi else VK_FORMAT_UNDEFINED)
               DesiredFormatInfos"
  have a: "length ?fs = length DesiredFormatInfos" by simp
  have b: "\<forall>i<length DesiredFormatInfos.
       ?fs ! i = (if colorTypeSupportedAsSurface cenv (color_type (DesiredFormatInfos ! i))
                  then FormatInfo.format (DesiredFormatInfos ! i) else VK_FORMAT_UNDEFINED)"
    by simp
  have c: "\<forall>s log. VulkanSwapchain_ctor cenv p_vk dev skia_context old = Some (s, log) \<longrightarrow>
       filter choose_event log = [EvChooseSurfaceFormat ?fs]"
    using ctor_log assms by blast
  have d: "fst (ChooseSurfaceFormat cenv ?fs) <s 0 \<longrightarrow>
       (\<exists>s. VulkanSwapchain_ctor cenv p_vk dev skia_context old =
               Some (s, [EvChooseSurfaceFormat ?fs]) \<and>
            \<not> IsValid s \<and>
            (\<forall>env. AcquireSurface env s = Some ((ErrorSurfaceLost, None), s, []) \<and>
                   Submit env s = Some (False, s, []) \<and>
                   FlushCommands env s = Some (False, s, [])) \<and>
            (\<forall>env shared_fence g g' log a.
               PresentAll env shared_fence g = Some (g', log) \<and> heap g a = Some s \<longrightarrow>
               (\<exists>s'. heap g' a = Some s' \<and> \<not> IsValid s')))"
  proof
    assume n: "fst (ChooseSurfaceFormat cenv ?fs) <s 0"
    from ctor_no_choice [OF assms n] obtain s where
      s: "VulkanSwapchain_ctor cenv p_vk dev skia_context old =
            Some (s, [EvChooseSurfaceFormat ?fs])" and iv: "\<not> IsValid s" by blast
    from iv have e: "\<forall>env. AcquireSurface env s = Some ((ErrorSurfaceLost, None), s, []) \<and>
                   Submit env s = Some (False, s, []) \<and>
                   FlushCommands env s = Some (False, s, [])"
      using invalid_is_inert by blast
    from iv have f: "\<forall>env shared_fence g g' log a.
               PresentAll env shared_fence g = Some (g', log) \<and> heap g a = Some s \<longrightarrow>
               (\<exists>s'. heap g' a = Some s' \<and> \<not> IsValid s')"
      using PresentAll_keeps_validity by blast
    from s iv e f show "\<exists>s. VulkanSwapchain_ctor cenv p_vk dev skia_context old =
               Some (s, [EvChooseSurfaceFormat ?fs]) \<and>
            \<not> IsValid s \<and>
            (\<forall>env. AcquireSurface env s = Some ((ErrorSurfaceLost, None), s, []) \<and>
                   Submit env s = Some (False, s, []) \<and>
                   FlushCommands env s = Some (False, s, [])) \<and>
            (\<forall>env shared_fence g g' log a.
               PresentAll env shared_fence g = Some (g', log) \<and> heap g a = Some s \<longrightarrow>
               (\<exists>s'. heap g' a = Some s' \<and> \<not> IsValid s'))"
      by blast
  qed
  from a b c d show ?thesis by blast
qed

theorem ctor_masks_formats_witness:
  "device_IsValid example_no_format \<and> surface_IsValid example_no_format \<and>
   Some (3 :: handle) \<noteq> None \<and> fst (GetSurfaceCapabilities example_no_format) \<and>
   (\<exists>fs s. fs ! 1 = VK_FORMAT_UNDEFINED \<and> fs ! 0 = VK_FORMAT_R8G8B8A8_SRGB \<and>
      fst (ChooseSurfaceFormat example_no_format fs) <s 0 \<and>
      VulkanSwapchain_ctor example_no_format 1 2 (Some 3) None =
        Some (s, [EvChooseSurfaceFormat fs]) \<and>
      \<not> IsValid s \<and> Submit all_ok s = Some (False, s, []))"
proof -
  have h1: "device_IsValid example_no_format" and h2: "surface_IsValid example_no_format"
    and h3: "Some (3 :: handle) \<noteq> None" and h4: "fst (GetSurfaceCapabilities example_no_format)"
    by (simp_all add: example_no_format_def example_construct_def)
  from ctor_masks_formats [OF h1 h2 h3 h4, of 1 2 None] obtain fs where
    a: "\<forall>i<length DesiredFormatInfos.
       fs ! i = (if colorTypeSupportedAsSurface example_no_format
                      (color_type (DesiredFormatInfos ! i))
                 then FormatInfo.format (DesiredFormatInfos ! i) else VK_FORMAT_UNDEFINED)" and
    b: "fst (ChooseSurfaceFormat example_no_format fs) <s 0 \<longrightarrow>
       (\<exists>s. VulkanSwapchain_ctor example_no_format 1 2 (Some 3) None =
               Some (s, [EvChooseSurfaceFormat fs]) \<and>
            \<not> IsValid s \<and>
            (\<forall>env. AcquireSurface env s = Some ((ErrorSurfaceLost, None), s, []) \<and>
                   Submit env s = Some (False, s, []) \<and>
                   FlushCommands env s = Some (False, s, [])))"
    by blast
  have n: "fst (ChooseSurfaceFormat example_no_format fs) <s 0"
    by (simp add: example_no_format_def example_construct_def word_sless_alt)
  from a have "fs ! 1 = (if colorTypeSupportedAsSurface example_no_format
                      (color_type (DesiredFormatInfos ! 1))
                 then FormatInfo.format (DesiredFormatInfos ! 1) else VK_FORMAT_UNDEFINED)"
    by (simp add: DesiredFormatInfos_def)
  then have f1: "fs ! 1 = VK_FORMAT_UNDEFINED"
    by (simp add: DesiredFormatInfos_def example_no_format_def example_construct_def)
  from a have "fs ! 0 = (if colorTypeSupportedAsSurface example_no_format
                      (color_type (DesiredFormatInfos ! 0))
                 then FormatInfo.format (DesiredFormatInfos ! 0) else VK_FORMAT_UNDEFINED)"
    by (simp add: DesiredFormatInfos_def)
  then have f0: "fs ! 0 = VK_FORMAT_R8G8B8A8_SRGB"
    by (simp add: DesiredFormatInfos_def example_no_format_def example_construct_def)
  from b n obtain s where "VulkanSwapchain_ctor example_no_format 1 2 (Some 3) None =
               Some (s, [EvChooseSurfaceFormat fs])" "\<not> IsValid s"
     "Submit all_ok s = Some (False, s, [])" by blast
  with h1 h2 h3 h4 f0 f1 n show ?thesis by blast
qed

subsection \<open>The invariant of a valid swapchain\<close>

text \<open>
  Claim C9. Every swapchain that the constructor returns satisfies the invariant: if it
  is valid, its backbuffers, images and surfaces have the same length \<open>N > 0\<close> and both
  cursors are below \<open>N\<close>. \<^verbatim>\<open>AcquireSurface\<close>, \<^verbatim>\<open>Submit\<close> and \<^verbatim>\<open>FlushCommands\<close> return and
  keep the invariant, \<^verbatim>\<open>PresentAll\<close> keeps it for every swapchain of the heap, and
  \<^verbatim>\<open>AddToPresent\<close> does not touch the heap. Under the invariant, the three unchecked
  reads at the cursors with which \<^verbatim>\<open>Submit\<close> and \<^verbatim>\<open>FlushCommands\<close> begin are in range.
\<close>

theorem swapchain_invariant:
  "(\<forall>s0 log. VulkanSwapchain_ctor cenv p_vk dev skia_context old = Some (s0, log) \<longrightarrow>
      swapchain_inv s0) \<and>
   (swapchain_inv s \<longrightarrow>
      (\<exists>r s' log. AcquireSurface env s = Some (r, s', log) \<and> swapchain_inv s') \<and>
      (\<exists>ok s' log. Submit env s = Some (ok, s', log) \<and> swapchain_inv s') \<and>
      (\<exists>ok s' log. FlushCommands env s = Some (ok, s', log) \<and> swapchain_inv s')) \<and>
   (\<forall>g' log. (\<forall>a sc. heap g a = Some sc \<longrightarrow> swapchain_inv sc) \<and>
      PresentAll env shared_fence g = Some (g', log) \<longrightarrow>
      (\<forall>a sc. heap g' a = Some sc \<longrightarrow> swapchain_inv sc)) \<and>
   heap (fst (AddToPresent this tid g)) = heap g \<and>
   (IsValid s \<and> swapchain_inv s \<longrightarrow>
      length (backbuffers s) = length (images s) \<and>
      length (images s) = length (surfaces s) \<and>
      0 < length (images s) \<and>
      unat (current_image_index s) < length (images s) \<and>
      unat (current_backbuffer_index s) < length (backbuffers s) \<and>
      at (surfaces s) (current_image_index s) \<noteq> None \<and>
      at (images s) (current_image_index s) \<noteq> None \<and>
      at (backbuffers s) (current_backbuffer_index s) \<noteq> None)"
proof (intro conjI)
  show "\<forall>s0 log. VulkanSwapchain_ctor cenv p_vk dev skia_context old = Some (s0, log) \<longrightarrow>
      swapchain_inv s0"
    using ctor_inv by blast
next
  show "swapchain_inv s \<longrightarrow>
      (\<exists>r s' log. AcquireSurface env s = Some (r, s', log) \<and> swapchain_inv s') \<and>
      (\<exists>ok s' log. Submit env s = Some (ok, s', log) \<and> swapchain_inv s') \<and>
      (\<exists>ok s' log. FlushCommands env s = Some (ok, s', log) \<and> swapchain_inv s')"
  proof
    assume i: "swapchain_inv s"
    from AcquireSurface_total [OF i, of env] AcquireSurface_preserves_inv [OF i]
    have a: "\<exists>r s' log. AcquireSurface env s = Some (r, s', log) \<and> swapchain_inv s'"
      by blast
    from Submit_total [OF i, of env] Submit_preserves_inv [OF i]
    have b: "\<exists>ok s' log. Submit env s = Some (ok, s', log) \<and> swapchain_inv s'" by blast
    from FlushCommands_total [OF i, of env] FlushCommands_preserves_inv [OF i]
    have c: "\<exists>ok s' log. FlushCommands env s = Some (ok, s', log) \<and> swapchain_inv s'"
      by blast
    from a b c show "(\<exists>r s' log. AcquireSurface env s = Some (r, s', log) \<and> swapchain_inv s') \<and>
      (\<exists>ok s' log. Submit env s = Some (ok, s', log) \<and> swapchain_inv s') \<and>
      (\<exists>ok s' log. FlushCommands env s = Some (ok, s', log) \<and> swapchain_inv s')"
      by blast
  qed
next
  show "\<forall>g' log. (\<forall>a sc. heap g a = Some sc \<longrightarrow> swapchain_inv sc) \<and>
      PresentAll env shared_fence g = Some (g', log) \<longrightarrow>
      (\<forall>a sc. heap g' a = Some sc \<longrightarrow> swapchain_inv sc)"
  proof (intro allI impI, elim conjE)
    fix g' log a sc'
    assume h: "\<forall>a sc. heap g a = Some sc \<longrightarrow> swapchain_inv sc"
      and p: "PresentAll env shared_fence g = Some (g', log)"
      and s: "heap g' a = Some sc'"
    from same_but_flags_inv [OF PresentAll_same [OF p] s] h show "swapchain_inv sc'" by blast
  qed
next
  show "heap (fst (AddToPresent this tid g)) = heap g" by (simp add: AddToPresent_def)
next
  show "IsValid s \<and> swapchain_inv s \<longrightarrow>
      length (backbuffers s) = length (images s) \<and>
      length (images s) = length (surfaces s) \<and>
      0 < length (images s) \<and>
      unat (current_image_index s) < length (images s) \<and>
      unat (current_backbuffer_index s) < length (backbuffers s) \<and>
      at (surfaces s) (current_image_index s) \<noteq> None \<and>
      at (images s) (current_image_index s) \<noteq> None \<and>
      at (backbuffers s) (current_backbuffer_index s) \<noteq> None"
    by (auto simp: swapchain_inv_def at_def)
qed

theorem swapchain_invariant_witness:
  "(\<exists>s0 log. VulkanSwapchain_ctor example_construct 1 2 (Some 3) None = Some (s0, log) \<and>
      IsValid s0 \<and> swapchain_inv s0 \<and> length (backbuffers s0) = 3 \<and>
      length (images s0) = 3 \<and> length (surfaces s0) = 3) \<and>
   IsValid example_swapchain \<and> swapchain_inv example_swapchain \<and>
   (\<exists>r s' log. AcquireSurface all_ok example_swapchain = Some (r, s', log) \<and>
      swapchain_inv s') \<and>
   at (surfaces example_swapchain) (current_image_index example_swapchain) \<noteq> None"
proof -
  note t = swapchain_invariant [of example_construct 1 2 "Some 3" None example_swapchain
      all_ok example_process 99 500 100]
  from ex_ctor_valid obtain s0 log where
    c: "VulkanSwapchain_ctor example_construct 1 2 (Some 3) None = Some (s0, log)"
    and v: "IsValid s0" "length (backbuffers s0) = 3" "length (images s0) = 3"
      "length (surfaces s0) = 3" by blast
  from t c have i0: "swapchain_inv s0" by blast
  have h: "IsValid example_swapchain" "swapchain_inv example_swapchain"
    using example_swapchain_inv by simp_all
  from t h have a: "\<exists>r s' log. AcquireSurface all_ok example_swapchain = Some (r, s', log) \<and>
      swapchain_inv s'" by blast
  from t h have b: "at (surfaces example_swapchain) (current_image_index example_swapchain) \<noteq> None"
    by blast
  from c v i0 h a b show ?thesis by blast
qed

subsection \<open>GetSize\<close>

text \<open>
  Claim C10, as amended. Let the minimum image extent of the capabilities be at most the
  maximum in each dimension, and the maximum fit the \<^verbatim>\<open>int32_t\<close> fields of \<^verbatim>\<open>SkISize\<close>
  (at most \<open>2\<^sup>3\<^sup>1 - 1\<close>). Then the
  width that \<^verbatim>\<open>GetSize\<close> returns lies between the minimum and the maximum width; it is
  the current width when that lies between them, the minimum when the current width is
  below it and the maximum when the current width is above it. The same holds for the
  height, and neither dimension depends on the other.
\<close>

theorem GetSize_clamps_extent:
  assumes "width (minImageExtent (capabilities s)) \<le> width (maxImageExtent (capabilities s))"
    and "height (minImageExtent (capabilities s)) \<le> height (maxImageExtent (capabilities s))"
    and "width (maxImageExtent (capabilities s)) \<le> 0x7FFFFFFF"
    and "height (maxImageExtent (capabilities s)) \<le> 0x7FFFFFFF"
  shows
    "uint (width (minImageExtent (capabilities s))) \<le> sint (fWidth (GetSize s)) \<and>
     sint (fWidth (GetSize s)) \<le> uint (width (maxImageExtent (capabilities s))) \<and>
     uint (height (minImageExtent (capabilities s))) \<le> sint (fHeight (GetSize s)) \<and>
     sint (fHeight (GetSize s)) \<le> uint (height (maxImageExtent (capabilities s))) \<and>
     sint (fWidth (GetSize s)) =
       (if width (currentExtent (capabilities s)) < width (minImageExtent (capabilities s))
        then uint (width (minImageExtent (capabilities s)))
        else if width (maxImageExtent (capabilities s)) < width (currentExtent (capabilities s))
        then uint (width (maxImageExtent (capabilities s)))
        else uint (width (currentExtent (capabilities s)))) \<and>
     sint (fHeight (GetSize s)) =
       (if height (currentExtent (capabilities s)) < height (minImageExtent (capabilities s))
        then uint (height (minImageExtent (capabilities s)))
        else if height (maxImageExtent (capabilities s)) < height (currentExtent (capabilities s))
        then uint (height (maxImageExtent (capabilities s)))
        else uint (height (currentExtent (capabilities s))))"
proof -
  let ?c = "capabilities s"
  have w: "fWidth (GetSize s) =
      (if width (currentExtent ?c) < width (minImageExtent ?c) then width (minImageExtent ?c)
       else if width (maxImageExtent ?c) < width (currentExtent ?c)
       then width (maxImageExtent ?c) else width (currentExtent ?c))"
    by (simp add: GetSize_def Let_def SkISize_Make_def)
  have h: "fHeight (GetSize s) =
      (if height (currentExtent ?c) < height (minImageExtent ?c) then height (minImageExtent ?c)
       else if height (maxImageExtent ?c) < height (currentExtent ?c)
       then height (maxImageExtent ?c) else height (currentExtent ?c))"
    by (simp add: GetSize_def Let_def SkISize_Make_def)
  have wb: "width (minImageExtent ?c) \<le> fWidth (GetSize s) \<and>
            fWidth (GetSize s) \<le> width (maxImageExtent ?c)"
    using assms(1) by (auto simp: w)
  have hb: "height (minImageExtent ?c) \<le> fHeight (GetSize s) \<and>
            fHeight (GetSize s) \<le> height (maxImageExtent ?c)"
    using assms(2) by (auto simp: h)
  from wb assms(3) have "fWidth (GetSize s) \<le> 0x7FFFFFFF" by (blast intro: order_trans)
  then have ws: "sint (fWidth (GetSize s)) = uint (fWidth (GetSize s))" by (rule sint_small)
  from hb assms(4) have "fHeight (GetSize s) \<le> 0x7FFFFFFF" by (blast intro: order_trans)
  then have hs: "sint (fHeight (GetSize s)) = uint (fHeight (GetSize s))" by (rule sint_small)
  have "uint (width (minImageExtent ?c)) \<le> uint (fWidth (GetSize s)) \<and>
        uint (fWidth (GetSize s)) \<le> uint (width (maxImageExtent ?c)) \<and>
        uint (height (minImageExtent ?c)) \<le> uint (fHeight (GetSize s)) \<and>
        uint (fHeight (GetSize s)) \<le> uint (height (maxImageExtent ?c))"
    using wb hb by (simp add: word_le_def)
  moreover have "uint (fWidth (GetSize s)) =
       (if width (currentExtent ?c) < width (minImageExtent ?c)
        then uint (width (minImageExtent ?c))
        else if width (maxImageExtent ?c) < width (currentExtent ?c)
        then uint (width (maxImageExtent ?c))
        else uint (width (currentExtent ?c)))"
    by (simp add: w)
  moreover have "uint (fHeight (GetSize s)) =
       (if height (currentExtent ?c) < height (minImageExtent ?c)
        then uint (height (minImageExtent ?c))
        else if height (maxImageExtent ?c) < height (currentExtent ?c)
        then uint (height (maxImageExtent ?c))
        else uint (height (currentExtent ?c)))"
    by (simp add: h)
  ultimately show ?thesis by (simp only: ws hs)
qed

theorem GetSize_clamps_extent_witness:
  "width (minImageExtent (capabilities example_swapchain))
     \<le> width (maxImageExtent (capabilities example_swapchain)) \<and>
   height (minImageExtent (capabilities example_swapchain))
     \<le> height (maxImageExtent (capabilities example_swapchain)) \<and>
   width (maxImageExtent (capabilities example_swapchain)) \<le> 0x7FFFFFFF \<and>
   height (maxImageExtent (capabilities example_swapchain)) \<le> 0x7FFFFFFF \<and>
   sint (fWidth (GetSize example_swapchain)) = 4096 \<and>
   sint (fHeight (GetSize example_swapchain)) = 20"
proof -
  have h1: "width (minImageExtent (capabilities example_swapchain))
     \<le> width (maxImageExtent (capabilities example_swapchain))"
    and h2: "height (minImageExtent (capabilities example_swapchain))
     \<le> height (maxImageExtent (capabilities example_swapchain))"
    and h3: "width (maxImageExtent (capabilities example_swapchain)) \<le> 0x7FFFFFFF"
    and h4: "height (maxImageExtent (capabilities example_swapchain)) \<le> 0x7FFFFFFF"
    by (simp_all add: example_swapchain_def)
  from GetSize_clamps_extent [OF h1 h2 h3 h4]
  have "sint (fWidth (GetSize example_swapchain)) = 4096 \<and>
        sint (fHeight (GetSize example_swapchain)) = 20"
    by (simp add: example_swapchain_def)
  with h1 h2 h3 h4 show ?thesis by blast
qed

text \<open>
  The claim as it was stated, for all capabilities, fails. \<^verbatim>\<open>SkISize::Make\<close> takes
  \<^verbatim>\<open>int32_t\<close> arguments, so a clamped \<^verbatim>\<open>uint32_t\<close> above \<^verbatim>\<open>INT32_MAX\<close> is returned as a
  negative number: with minimum 1 and maximum \<open>2\<^sup>3\<^sup>2 - 1\<close> in both dimensions, which is a
  proper interval, the current extent \<open>(2\<^sup>3\<^sup>1, 2\<^sup>3\<^sup>2 - 1)\<close> lies in the interval and is
  returned as \<open>(- 2\<^sup>3\<^sup>1, - 1)\<close>, below the minimum. And when the minimum width 10 is above
  the maximum width 3, the current width 5 is returned as 10, above the maximum.
\<close>

theorem GetSize_clamps_extent_counterexample:
  "width (minImageExtent (capabilities wide_extent_swapchain))
     \<le> width (currentExtent (capabilities wide_extent_swapchain)) \<and>
   width (currentExtent (capabilities wide_extent_swapchain))
     \<le> width (maxImageExtent (capabilities wide_extent_swapchain)) \<and>
   height (minImageExtent (capabilities wide_extent_swapchain))
     \<le> height (currentExtent (capabilities wide_extent_swapchain)) \<and>
   height (currentExtent (capabilities wide_extent_swapchain))
     \<le> height (maxImageExtent (capabilities wide_extent_swapchain)) \<and>
   sint (fWidth (GetSize wide_extent_swapchain)) = - 2147483648 \<and>
   sint (fHeight (GetSize wide_extent_swapchain)) = - 1 \<and>
   sint (fWidth (GetSize wide_extent_swapchain))
     < uint (width (minImageExtent (capabilities wide_extent_swapchain))) \<and>
   sint (fHeight (GetSize wide_extent_swapchain))
     < uint (height (minImageExtent (capabilities wide_extent_swapchain))) \<and>
   sint (fWidth (GetSize empty_interval_swapchain)) = 10 \<and>
   uint (width (maxImageExtent (capabilities empty_interval_swapchain))) = 3 \<and>
   uint (width (maxImageExtent (capabilities empty_interval_swapchain)))
     < sint (fWidth (GetSize empty_interval_swapchain))"
  by (simp add: wide_extent_swapchain_def empty_interval_swapchain_def example_swapchain_def
        GetSize_def SkISize_Make_def Let_def word_le_nat_alt word_less_nat_alt)

end
